theory Spec2Isabelle
  imports Complex_Main "HOL-Library.Log_Nat"
begin

section \<open>JavaScript numbers\<close>

text \<open>
  A JavaScript \<open>number\<close> is an IEEE 754 double: a finite value, an infinity or
  \<open>NaN\<close>. A finite double is carried by the rational it denotes. Every arithmetic
  operation returns the exact result rounded to the nearest double, a tie going to the
  even significand, and a result of magnitude \<open>2 ^ 1024\<close> or more after rounding is an
  infinity. The sign of zero, which none of the functions below can observe, is not
  represented.
\<close>

datatype number = Fin rat | PInf | NInf | NaN

text \<open>The exponent \<open>k\<close> with \<open>2 ^ k \<le> x < 2 ^ (k + 1)\<close>, for a positive \<open>x\<close>.\<close>

definition binade :: "rat \<Rightarrow> int" where
  "binade x = (if 1 \<le> x then bitlen \<lfloor>x\<rfloor> - 1 else - bitlen (\<lceil>1 / x\<rceil> - 1))"

definition roundEven :: "rat \<Rightarrow> int" where
  "roundEven x =
     (let f = \<lfloor>x\<rfloor>; d = x - of_int f
      in if d < 1 / 2 then f else if 1 / 2 < d then f + 1 else if even f then f else f + 1)"

text \<open>
  Rounding to a double: the spacing of the doubles around \<open>x\<close> is \<open>2 ^ (e - 52)\<close>
  with \<open>e\<close> the exponent of \<open>x\<close>, at least that of the subnormal range.
\<close>

definition fl :: "rat \<Rightarrow> number" where
  "fl x =
     (if x = 0 then Fin 0
      else
        let a = \<bar>x\<bar>;
            e = max (binade a) (- 1022);
            q = power_int 2 (e - 52);
            y = of_int (roundEven (a / q)) * q
        in if power_int 2 1024 \<le> y then (if 0 < x then PInf else NInf)
           else Fin (if 0 < x then y else - y))"

definition quantum :: "rat \<Rightarrow> rat" where
  "quantum a = power_int 2 (max (binade a) (- 1022) - 52)"

definition nearest :: "rat \<Rightarrow> rat" where
  "nearest a = of_int (roundEven (a / quantum a)) * quantum a"

text \<open>A decimal literal of the source denotes the double nearest to it.\<close>

definition lit :: "rat \<Rightarrow> number" where
  "lit r = fl r"

definition positive :: "number \<Rightarrow> bool" where
  "positive a = (case a of Fin x \<Rightarrow> 0 < x | PInf \<Rightarrow> True | NInf \<Rightarrow> False | NaN \<Rightarrow> False)"

definition negD :: "number \<Rightarrow> number" where
  "negD a = (case a of Fin x \<Rightarrow> Fin (- x) | PInf \<Rightarrow> NInf | NInf \<Rightarrow> PInf | NaN \<Rightarrow> NaN)"

fun addD :: "number \<Rightarrow> number \<Rightarrow> number" where
  "addD (Fin x) (Fin y) = fl (x + y)"
| "addD NaN b = NaN"
| "addD a NaN = NaN"
| "addD PInf NInf = NaN"
| "addD NInf PInf = NaN"
| "addD PInf b = PInf"
| "addD NInf b = NInf"
| "addD a PInf = PInf"
| "addD a NInf = NInf"

definition subD :: "number \<Rightarrow> number \<Rightarrow> number" where
  "subD a b = addD a (negD b)"

fun mulD :: "number \<Rightarrow> number \<Rightarrow> number" where
  "mulD (Fin x) (Fin y) = fl (x * y)"
| "mulD NaN b = NaN"
| "mulD a NaN = NaN"
| "mulD a b =
     (if a = Fin 0 \<or> b = Fin 0 then NaN
      else if positive a = positive b then PInf else NInf)"

fun divD :: "number \<Rightarrow> number \<Rightarrow> number" where
  "divD (Fin x) (Fin y) =
     (if y = 0 then (if x = 0 then NaN else if 0 < x then PInf else NInf) else fl (x / y))"
| "divD NaN b = NaN"
| "divD a NaN = NaN"
| "divD (Fin x) b = Fin 0"
| "divD a (Fin y) = (if positive a = (0 \<le> y) then PInf else NInf)"
| "divD a b = NaN"

text \<open>The comparison \<open>a <= b\<close>, false when either side is \<open>NaN\<close>.\<close>

fun leD :: "number \<Rightarrow> number \<Rightarrow> bool" where
  "leD (Fin x) (Fin y) = (x \<le> y)"
| "leD NaN b = False"
| "leD a NaN = False"
| "leD NInf b = True"
| "leD a PInf = True"
| "leD a b = False"

definition Math_max :: "number \<Rightarrow> number \<Rightarrow> number" where
  "Math_max a b = (if a = NaN \<or> b = NaN then NaN else if leD a b then b else a)"

definition Math_ceil :: "number \<Rightarrow> number" where
  "Math_ceil a = (case a of Fin x \<Rightarrow> Fin (of_int \<lceil>x\<rceil>) | PInf \<Rightarrow> PInf | NInf \<Rightarrow> NInf | NaN \<Rightarrow> NaN)"

text \<open>\<open>Math.round\<close>: the nearest integer, a tie going up.\<close>

definition Math_round :: "number \<Rightarrow> number" where
  "Math_round a =
     (case a of Fin x \<Rightarrow> Fin (of_int \<lfloor>x + 1 / 2\<rfloor>) | PInf \<Rightarrow> PInf | NInf \<Rightarrow> NInf | NaN \<Rightarrow> NaN)"

text \<open>
  \<open>Number(x.toFixed(1))\<close>: \<open>toFixed\<close> writes the integer number of tenths nearest
  to the double, a tie going to the larger magnitude, and \<open>Number\<close> reads the decimal
  back as the nearest double. From \<open>10 ^ 21\<close> on, and for an infinity or \<open>NaN\<close>,
  the text read back is that of the number itself.
\<close>

definition toFixed1 :: "number \<Rightarrow> number" where
  "toFixed1 a =
     (case a of
        Fin x \<Rightarrow>
          if 10 ^ 21 \<le> \<bar>x\<bar> then Fin x
          else if x < 0 then fl (- (of_int \<lfloor>(- x) * 10 + 1 / 2\<rfloor> / 10))
          else fl (of_int \<lfloor>x * 10 + 1 / 2\<rfloor> / 10)
      | PInf \<Rightarrow> PInf | NInf \<Rightarrow> NInf | NaN \<Rightarrow> NaN)"

section \<open>Data model (types.ts)\<close>

text \<open>
  A field that the code computes with is a \<open>number\<close>. The counts, durations and
  timestamps of a history entry are integers (lengths, differences and readings of the
  millisecond clock) and are read as the double of that integer. A
  \<open>Record<string, T>\<close> is a map on its own keys; an optional field is an
  \<open>option\<close>.
\<close>

record Explanation =
  correct :: string
  incorrect :: string
  keyLearningPoint :: string

record Question =
  idQ :: string
  vignette :: string
  options :: "string list"
  correctIndex :: int
  explanation :: Explanation
  tags :: "string list option"

record MasteryCard =
  idM :: string
  parentId :: string
  typeM :: string
  frontM :: string
  backM :: string

record SRSState =
  cardId :: string
  nextReview :: number
  interval :: number
  ease :: number
  repetitions :: number

datatype SRSRating = Again | Hard | Good | Easy

datatype MedicalSpecialty =
  INTERNAL_MEDICINE | SURGERY | PEDIATRICS | OB_GYN | PSYCHIATRY | EMERGENCY_MEDICINE
  | FAMILY_MEDICINE | ETHICS | ORTHOPEDICS | OPHTHALMOLOGY | ENT | DERMATOLOGY

datatype ExamType = STEP_2_CK | STEP_3 | SHELF_BOARD

datatype ClinicalComplexity = EASY | MEDIUM | HARD

record HistoricalSession =
  idH :: string
  timestamp :: int
  totalQuestions :: int
  correctAnswers :: int
  timeTakenMs :: int
  specialtiesH :: "MedicalSpecialty list"
  examTypesH :: "ExamType list"
  complexityH :: "ClinicalComplexity option"
  details :: "(string \<times> bool) list option"

record LifetimeStats =
  totalQuestionsL :: number
  totalCorrect :: number
  totalHours :: number
  avgAccuracy :: number
  firstSessionDate :: int

record StudyWeek =
  topicsW :: "string list"
  hours :: number
  resources :: "string list"
  focusDescription :: string

type_synonym StudyPlan = "string \<rightharpoonup> StudyWeek"

record QuizSession =
  questions :: "Question list"
  currentQuestionIndex :: nat
  userAnswers :: "int option list"
  startTime :: int
  specialties :: "MedicalSpecialty list"
  examTypes :: "ExamType list"
  complexity :: ClinicalComplexity
  topics :: "string option"
  skippedIds :: "string list option"
  autoReinforce :: bool

section \<open>SRS scheduler (App.tsx, updateSRS)\<close>

text \<open>The state used for an item that has no entry yet: the right operand of \<open>||\<close>.\<close>

definition defaultSRS :: "string \<Rightarrow> SRSState" where
  "defaultSRS cid =
     \<lparr>cardId = cid, nextReview = Fin 0, interval = Fin 0, ease = lit (23 / 10),
      repetitions = Fin 0\<rparr>"

definition currentSRS :: "(string \<rightharpoonup> SRSState) \<Rightarrow> string \<Rightarrow> SRSState" where
  "currentSRS prev cid = (case prev cid of None \<Rightarrow> defaultSRS cid | Some c \<Rightarrow> c)"

text \<open>
  The body of the updater between the destructuring of \<open>current\<close> and the construction
  of the new entry: the triple (interval, ease, repetitions) after the rating.
\<close>

definition rate :: "SRSRating \<Rightarrow> number \<times> number \<times> number \<Rightarrow> number \<times> number \<times> number" where
  "rate rating t =
     (case t of (i0, e0, r0) \<Rightarrow>
        if rating = Again
        then (Fin 0, Math_max (lit (13 / 10)) (subD e0 (lit (2 / 10))), Fin 0)
        else
          let i1 = (if r0 = Fin 0 then Fin 1
                    else if r0 = Fin 1 then Fin 6
                    else Math_ceil (mulD i0 (if rating = Hard then lit (12 / 10)
                                             else if rating = Good then e0
                                             else mulD e0 (lit (15 / 10)))));
              r1 = addD r0 (Fin 1);
              e1 = (if rating = Hard then Math_max (lit (13 / 10)) (subD e0 (lit (15 / 100)))
                    else e0);
              e2 = (if rating = Easy then addD e1 (lit (15 / 100)) else e1)
          in (i1, e2, r1))"

text \<open>\<open>Date.now()\<close> is an integer number of milliseconds.\<close>

definition srsEntry :: "int \<Rightarrow> SRSRating \<Rightarrow> SRSState \<Rightarrow> SRSState" where
  "srsEntry now rating current =
     (case rate rating (interval current, ease current, repetitions current) of
        (i, e, r) \<Rightarrow>
          current\<lparr>nextReview :=
                    addD (fl (of_int now))
                      (mulD (mulD (mulD (mulD i (Fin 24)) (Fin 60)) (Fin 60)) (Fin 1000)),
                  interval := i, ease := e, repetitions := r\<rparr>)"

definition updateSRS ::
  "int \<Rightarrow> string \<Rightarrow> SRSRating \<Rightarrow> (string \<rightharpoonup> SRSState) \<Rightarrow> (string \<rightharpoonup> SRSState)" where
  "updateSRS now cid rating prev = prev(cid \<mapsto> srsEntry now rating (currentSRS prev cid))"




definition daysInMs :: "number \<Rightarrow> number" where
  "daysInMs i = mulD (mulD (mulD (mulD i (Fin 24)) (Fin 60)) (Fin 60)) (Fin 1000)"



section \<open>Persistence and analytics (databaseService.ts)\<close>

text \<open>
  The key-value store with its named slots; \<open>None\<close> is a slot that \<open>get\<close> finds
  absent (or holding \<open>null\<close>). Failures of the storage engine itself are not modelled.
\<close>

record Store =
  historyS :: "HistoricalSession list option"
  bookmarksS :: "Question list option"
  masteryCardsS :: "(string \<rightharpoonup> MasteryCard list) option"
  srsStatesS :: "(string \<rightharpoonup> SRSState) option"
  questionLibraryS :: "(string \<rightharpoonup> Question) option"
  studyPlanS :: "StudyPlan option"
  lifetimeStatsS :: "LifetimeStats option"

record AppData =
  historyD :: "HistoricalSession list"
  bookmarksD :: "Question list"
  masteryCardsD :: "string \<rightharpoonup> MasteryCard list"
  srsStatesD :: "string \<rightharpoonup> SRSState"
  questionLibraryD :: "string \<rightharpoonup> Question"
  studyPlanD :: "StudyPlan option"
  lifetimeStatsD :: LifetimeStats

text \<open>
  A backup file after \<open>JSON.parse\<close>: an object whose fields may each be missing. For
  \<open>historyP\<close> and \<open>bookmarksP\<close>, \<open>None\<close> is a field that is not an array; for the
  others, a field that is missing or \<open>null\<close>.
\<close>

record Payload =
  historyP :: "HistoricalSession list option"
  bookmarksP :: "Question list option"
  masteryCardsP :: "(string \<rightharpoonup> MasteryCard list) option"
  srsStatesP :: "(string \<rightharpoonup> SRSState) option"
  questionLibraryP :: "(string \<rightharpoonup> Question) option"
  studyPlanP :: "StudyPlan option"
  lifetimeStatsP :: "LifetimeStats option"

datatype parsed = SyntaxError string | NotAnObject | Object Payload

definition loadHistory :: "Store \<Rightarrow> HistoricalSession list" where
  "loadHistory db = (case historyS db of None \<Rightarrow> [] | Some h \<Rightarrow> h)"

definition emptyStats :: "int \<Rightarrow> LifetimeStats" where
  "emptyStats now =
     \<lparr>totalQuestionsL = Fin 0, totalCorrect = Fin 0, totalHours = Fin 0, avgAccuracy = Fin 0,
      firstSessionDate = now\<rparr>"

text \<open>Reading an integer field of a history entry.\<close>

definition num :: "int \<Rightarrow> number" where
  "num v = fl (of_int v)"

text \<open>
  The statistics object of a history that is not empty. The sort is the stable sort by
  timestamp (the comparator subtracts two readings of the clock, integers that a double
  holds, and the sign of the double difference is that of the difference); its first
  element is read only where the list is not empty.
\<close>

definition computeStats :: "HistoricalSession list \<Rightarrow> LifetimeStats" where
  "computeStats history =
     (let totalQuestions' = foldl (\<lambda>acc s. addD acc (num (totalQuestions s))) (Fin 0) history;
          totalCorrect' = foldl (\<lambda>acc s. addD acc (num (correctAnswers s))) (Fin 0) history;
          totalTimeMs = foldl (\<lambda>acc s. addD acc (num (timeTakenMs s))) (Fin 0) history;
          sortedHistory = sort_key timestamp history;
          firstSessionDate' = timestamp (hd sortedHistory)
      in \<lparr>totalQuestionsL = totalQuestions',
          totalCorrect = totalCorrect',
          totalHours = toFixed1 (divD totalTimeMs (Fin 3600000)),
          avgAccuracy = Math_round (mulD (divD totalCorrect' totalQuestions') (Fin 100)),
          firstSessionDate = firstSessionDate'\<rparr>)"

definition updateAnalytics ::
  "int \<Rightarrow> HistoricalSession list option \<Rightarrow> Store \<Rightarrow> LifetimeStats \<times> Store" where
  "updateAnalytics now historyOverride db =
     (let history = (case historyOverride of Some h \<Rightarrow> h | None \<Rightarrow> loadHistory db)
      in if length history = 0
         then (emptyStats now, db\<lparr>lifetimeStatsS := Some (emptyStats now)\<rparr>)
         else (computeStats history, db\<lparr>lifetimeStatsS := Some (computeStats history)\<rparr>))"

definition saveSession :: "int \<Rightarrow> HistoricalSession \<Rightarrow> Store \<Rightarrow> LifetimeStats \<times> Store" where
  "saveSession now entry db =
     (let updatedHistory = entry # loadHistory db
      in updateAnalytics now (Some updatedHistory) (db\<lparr>historyS := Some updatedHistory\<rparr>))"

definition getAllData :: "int \<Rightarrow> Store \<Rightarrow> AppData \<times> Store" where
  "getAllData now db =
     (let history = (case historyS db of None \<Rightarrow> [] | Some h \<Rightarrow> h);
          bookmarks = (case bookmarksS db of None \<Rightarrow> [] | Some b \<Rightarrow> b);
          masteryCards = (case masteryCardsS db of None \<Rightarrow> Map.empty | Some m \<Rightarrow> m);
          srsStates = (case srsStatesS db of None \<Rightarrow> Map.empty | Some m \<Rightarrow> m);
          questionLibrary = (case questionLibraryS db of None \<Rightarrow> Map.empty | Some m \<Rightarrow> m);
          studyPlan = studyPlanS db;
          (lifetimeStats, db') =
            (case lifetimeStatsS db of
               Some ls \<Rightarrow> (ls, db)
             | None \<Rightarrow>
                 if length history > 0 then updateAnalytics now (Some history) db
                 else (emptyStats now, db\<lparr>lifetimeStatsS := Some (emptyStats now)\<rparr>))
      in (\<lparr>historyD = history, bookmarksD = bookmarks, masteryCardsD = masteryCards,
           srsStatesD = srsStates, questionLibraryD = questionLibrary, studyPlanD = studyPlan,
           lifetimeStatsD = lifetimeStats\<rparr>, db'))"

text \<open>\<open>JSON.stringify\<close> followed by \<open>JSON.parse\<close>: the document that a backup file holds.\<close>

definition stringify :: "AppData \<Rightarrow> Payload" where
  "stringify data =
     \<lparr>historyP = Some (historyD data), bookmarksP = Some (bookmarksD data),
      masteryCardsP = Some (masteryCardsD data), srsStatesP = Some (srsStatesD data),
      questionLibraryP = Some (questionLibraryD data), studyPlanP = studyPlanD data,
      lifetimeStatsP = Some (lifetimeStatsD data)\<rparr>"

definition backupAllData :: "int \<Rightarrow> Store \<Rightarrow> Payload \<times> Store" where
  "backupAllData now db = (case getAllData now db of (data, db') \<Rightarrow> (stringify data, db'))"

text \<open>
  The \<open>try\<close> block of \<open>fullImport\<close>: \<open>Inl\<close> carries the message of the error
  thrown, \<open>Inr\<close> the store after the seven writes.
\<close>

definition importBody :: "int \<Rightarrow> parsed \<Rightarrow> Store \<Rightarrow> string + Store" where
  "importBody now jsonData db =
     (case jsonData of
        SyntaxError msg \<Rightarrow> Inl msg
      | NotAnObject \<Rightarrow> Inl ''File content is not a valid JSON object''
      | Object data \<Rightarrow>
          (case historyP data of
             None \<Rightarrow> Inl ''Missing 'history' array in backup''
           | Some h \<Rightarrow>
               (case bookmarksP data of
                  None \<Rightarrow> Inl ''Missing 'bookmarks' array in backup''
                | Some b \<Rightarrow>
                    (case questionLibraryP data of
                       None \<Rightarrow> Inl ''Missing 'questionLibrary' in backup''
                     | Some q \<Rightarrow>
                         Inr (snd (updateAnalytics now (Some h)
                           (db\<lparr>historyS := Some h,
                               bookmarksS := Some b,
                               masteryCardsS :=
                                 Some (case masteryCardsP data of None \<Rightarrow> Map.empty | Some m \<Rightarrow> m),
                               srsStatesS :=
                                 Some (case srsStatesP data of None \<Rightarrow> Map.empty | Some m \<Rightarrow> m),
                               questionLibraryS := Some q,
                               studyPlanS := studyPlanP data\<rparr>)))))))"

text \<open>The result, the alerts shown, and the store afterwards.\<close>

definition fullImport :: "int \<Rightarrow> parsed \<Rightarrow> Store \<Rightarrow> bool \<times> string list \<times> Store" where
  "fullImport now jsonData db =
     (case importBody now jsonData db of
        Inr db' \<Rightarrow> (True, [], db')
      | Inl msg \<Rightarrow> (False, [''Import Failed: '' @ msg], db))"

text \<open>
  Export, import of what was exported, and export again, at three clock readings: the
  first payload and the second one.
\<close>

definition firstExport :: "int \<Rightarrow> Store \<Rightarrow> Payload" where
  "firstExport t1 db = fst (backupAllData t1 db)"

definition reimport :: "int \<Rightarrow> int \<Rightarrow> Store \<Rightarrow> bool \<times> string list \<times> Store" where
  "reimport t1 t2 db = fullImport t2 (Object (firstExport t1 db)) (snd (backupAllData t1 db))"

definition secondExport :: "int \<Rightarrow> int \<Rightarrow> int \<Rightarrow> Store \<Rightarrow> Payload" where
  "secondExport t1 t2 t3 db = fst (backupAllData t3 (snd (snd (reimport t1 t2 db))))"

text \<open>The statistics that an export shows: the stored ones, or those it computes.\<close>

definition statsOf :: "int \<Rightarrow> Store \<Rightarrow> LifetimeStats" where
  "statsOf now db =
     (case lifetimeStatsS db of
        Some ls \<Rightarrow> ls
      | None \<Rightarrow> if loadHistory db = [] then emptyStats now else computeStats (loadHistory db))"

section \<open>Session controller (App.tsx)\<close>

text \<open>
  The component state is a record; a handler maps the state it is called in to the state
  after it. A handler reads the state of the render that created it and is run here
  without another event in between. Calls of \<open>alert\<close> are logged in \<open>alerts\<close>; the
  store of the database service is the field \<open>dbService\<close>. The effects that mirror the
  collections to the store after a render are not part of the handlers.
\<close>

datatype View = Setup | Quiz | Results | Bookmarks | Analytics | Srs

record AppState =
  view :: View
  session :: "QuizSession option"
  completedSession :: "QuizSession option"
  isLoading :: bool
  backgroundProcessing :: bool
  selectedAnswer :: "int option"
  hasKey :: bool
  bookmarks :: "Question list"
  masteryCards :: "string \<rightharpoonup> MasteryCard list"
  history :: "HistoricalSession list"
  srsStates :: "string \<rightharpoonup> SRSState"
  questionLibrary :: "string \<rightharpoonup> Question"
  studyPlan :: "StudyPlan option"
  lifetimeStats :: "LifetimeStats option"
  alerts :: "string list"
  dbService :: Store

text \<open>
  An error as \<open>handleError\<close> reads it: its status (or nested error code) when that is
  a number, and its message.
\<close>

record ApiError =
  statusE :: "int option"
  messageE :: string

text \<open>
  \<open>window.aistudio\<close>, when present: what \<open>hasSelectedApiKey\<close> resolves to, whether
  the call of \<open>openSelectKey\<close> before generation resolves, and whether the one made by
  \<open>handleError\<close> does.
\<close>

record AIStudio =
  hasSelectedApiKey :: bool
  openSelectKey :: bool
  openSelectKeyOnError :: bool

record StartArgs =
  specialtiesA :: "MedicalSpecialty list"
  examTypesA :: "ExamType list"
  complexityA :: ClinicalComplexity
  countA :: int
  topicsA :: string
  autoReinforceA :: bool

record RemediationRequest =
  failedQuestion :: Question
  examTypesR :: "ExamType list"
  complexityR :: ClinicalComplexity
  countR :: int
  userFocusR :: "string option"

datatype TypeError = TypeError

text \<open>\<open>String.prototype.includes\<close>.\<close>

fun includesJS :: "string \<Rightarrow> string \<Rightarrow> bool" where
  "includesJS sub [] = (sub = [])"
| "includesJS sub (c # cs) = (take (length sub) (c # cs) = sub \<or> includesJS sub cs)"

text \<open>
  The library is a plain object: reading a key that is not its own finds the members
  that every object inherits from \<open>Object.prototype\<close>, all of them truthy.
\<close>

definition objectPrototypeKeys :: "string list" where
  "objectPrototypeKeys =
     [''constructor'', ''hasOwnProperty'', ''isPrototypeOf'', ''propertyIsEnumerable'',
      ''toLocaleString'', ''toString'', ''valueOf'', ''__proto__'', ''__defineGetter__'',
      ''__defineSetter__'', ''__lookupGetter__'', ''__lookupSetter__'']"

text \<open>Whether \<open>obj[k]\<close> is truthy, for an object whose own values are objects.\<close>

definition truthyAt :: "(string \<rightharpoonup> 'a) \<Rightarrow> string \<Rightarrow> bool" where
  "truthyAt obj k \<longleftrightarrow> obj k \<noteq> None \<or> k \<in> set objectPrototypeKeys"

text \<open>The loop of \<open>addToLibrary\<close> over the questions, on the copy \<open>next\<close>.\<close>

fun addToLibrary :: "Question list \<Rightarrow> (string \<rightharpoonup> Question) \<Rightarrow> (string \<rightharpoonup> Question)" where
  "addToLibrary [] next = next"
| "addToLibrary (q # qs) next =
     addToLibrary qs (if \<not> truthyAt next (idQ q) then next(idQ q \<mapsto> q) else next)"

text \<open>
  \<open>isLoadingSeen\<close> is the value of \<open>isLoading\<close> in the render that created the
  handler; \<open>aistudio\<close> is \<open>None\<close> without \<open>window.aistudio\<close>, otherwise whether
  \<open>openSelectKey\<close> resolves.
\<close>

definition handleError :: "bool option \<Rightarrow> bool \<Rightarrow> ApiError \<Rightarrow> AppState \<Rightarrow> AppState" where
  "handleError aistudio isLoadingSeen error st =
     (if statusE error = Some 403 \<or> includesJS ''403'' (messageE error)
         \<or> includesJS ''PERMISSION_DENIED'' (messageE error)
      then
        (let st1 = st\<lparr>hasKey := False\<rparr>;
             st2 = (case aistudio of
                      None \<Rightarrow> st1
                    | Some resolves \<Rightarrow> if resolves then st1\<lparr>hasKey := True\<rparr> else st1)
         in st2\<lparr>alerts := alerts st2 @
              [''Permission Denied: Please select a valid API Key with Gemini API access enabled.'']\<rparr>)
      else if statusE error = Some 429 \<or> includesJS ''429'' (messageE error)
      then st\<lparr>hasKey := False,
              alerts := alerts st @ [''API Quota Reached. Please activate your key or wait 60s.'']\<rparr>
      else if isLoadingSeen then st\<lparr>alerts := alerts st @ [''API Error. Please try again.'']\<rparr>
      else st)"

text \<open>
  The first two statements of the \<open>try\<close> block of \<open>startQuiz\<close>: the awaited generator
  either rejects or resolves to a list, and an empty list is thrown as an error.
\<close>

definition tryGenerate :: "ApiError + Question list \<Rightarrow> ApiError + Question list" where
  "tryGenerate generated =
     (case generated of
        Inl error \<Rightarrow> Inl error
      | Inr questions' \<Rightarrow>
          if length questions' = 0 then Inl \<lparr>statusE = None, messageE = ''Empty response''\<rparr>
          else Inr questions')"

definition startQuiz ::
  "AIStudio option \<Rightarrow> ApiError + Question list \<Rightarrow> int \<Rightarrow> StartArgs \<Rightarrow> AppState \<Rightarrow> AppState" where
  "startQuiz aistudio generated now args st =
     (let currentHasKey = (case aistudio of None \<Rightarrow> hasKey st | Some a \<Rightarrow> hasSelectedApiKey a)
      in if \<not> currentHasKey \<and> (case aistudio of None \<Rightarrow> False | Some a \<Rightarrow> \<not> openSelectKey a)
         then st
         else
           (let st0 = (if currentHasKey then st else st\<lparr>hasKey := True\<rparr>);
                st1 = st0\<lparr>isLoading := True\<rparr>;
                st2 = (case tryGenerate generated of
                         Inl error \<Rightarrow>
                           handleError (map_option openSelectKeyOnError aistudio) (isLoading st)
                             error st1
                       | Inr questions' \<Rightarrow>
                           st1\<lparr>questionLibrary := addToLibrary questions' (questionLibrary st1),
                               session := Some
                                 \<lparr>questions = questions', currentQuestionIndex = 0,
                                  userAnswers = [], startTime = now,
                                  specialties = specialtiesA args, examTypes = examTypesA args,
                                  complexity = complexityA args, topics = Some (topicsA args),
                                  skippedIds = Some [], autoReinforce = autoReinforceA args\<rparr>,
                               completedSession := None,
                               view := Quiz\<rparr>)
            in st2\<lparr>isLoading := False\<rparr>))"

text \<open>
  The sparse answer array: \<open>None\<close> is a hole. Reading outside the array gives
  \<open>undefined\<close>; writing outside extends it with holes.
\<close>

definition answerAt :: "int option list \<Rightarrow> nat \<Rightarrow> int option" where
  "answerAt answers i = (if i < length answers then answers ! i else None)"

definition setAnswer :: "int option list \<Rightarrow> nat \<Rightarrow> int \<Rightarrow> int option list" where
  "setAnswer answers i a =
     (if i < length answers then answers[i := Some a]
      else answers @ replicate (i - length answers) None @ [Some a])"

text \<open>
  The \<open>reduce\<close> of \<open>processSessionCompletion\<close> over the answers of the final
  session. They are a spread copy written at the last position: an entry past the
  questions is a value, and comparing it reads \<open>correctIndex\<close> of a question that
  does not exist, which throws (\<open>None\<close>); an unset entry within the questions adds
  nothing.
\<close>

fun correctCount :: "Question list \<Rightarrow> int option list \<Rightarrow> int option" where
  "correctCount qs [] = Some 0"
| "correctCount [] (a # answers) = None"
| "correctCount (q # qs) (None # answers) = correctCount qs answers"
| "correctCount (q # qs) (Some a # answers) =
     map_option (\<lambda>n. if a = correctIndex q then n + 1 else n) (correctCount qs answers)"

fun detailsOf :: "Question list \<Rightarrow> int option list \<Rightarrow> (string \<times> bool) list" where
  "detailsOf [] answers = []"
| "detailsOf (q # qs) [] = (idQ q, False) # detailsOf qs []"
| "detailsOf (q # qs) (a # answers) = (idQ q, a = Some (correctIndex q)) # detailsOf qs answers"

text \<open>
  \<open>processSessionCompletion\<close> with the identifier drawn and the two clock readings;
  \<open>None\<close> is the rejected promise, which leaves the state as it was.
\<close>

definition processSessionCompletion ::
  "string \<Rightarrow> int \<Rightarrow> int \<Rightarrow> QuizSession \<Rightarrow> AppState \<Rightarrow> AppState option" where
  "processSessionCompletion uuid now now' finalSession st =
     (case correctCount (questions finalSession) (userAnswers finalSession) of
        None \<Rightarrow> None
      | Some correctCount' \<Rightarrow>
          (let newHistoryEntry =
                 \<lparr>idH = uuid, timestamp = now,
                  totalQuestions = int (length (questions finalSession)),
                  correctAnswers = correctCount',
                  timeTakenMs = now' - startTime finalSession,
                  specialtiesH = specialties finalSession,
                  examTypesH = examTypes finalSession,
                  complexityH = Some (complexity finalSession),
                  details = Some (detailsOf (questions finalSession) (userAnswers finalSession))\<rparr>;
               saved = saveSession now' newHistoryEntry (dbService st)
           in Some (st\<lparr>history := newHistoryEntry # history st,
                        dbService := snd saved,
                        lifetimeStats := Some (fst saved)\<rparr>)))"

definition handlePrev :: "AppState \<Rightarrow> AppState" where
  "handlePrev st =
     (case session st of
        None \<Rightarrow> st
      | Some s \<Rightarrow>
          if currentQuestionIndex s > 0
          then (let prevIdx = currentQuestionIndex s - 1
                in st\<lparr>session := Some (s\<lparr>currentQuestionIndex := prevIdx\<rparr>),
                      selectedAnswer := answerAt (userAnswers s) prevIdx\<rparr>)
          else st)"

text \<open>\<open>onAnswer\<close> and \<open>onDiscardSession\<close> of the rendered components.\<close>

definition answer :: "int \<Rightarrow> AppState \<Rightarrow> AppState" where
  "answer idx st = st\<lparr>selectedAnswer := Some idx\<rparr>"

definition discardSession :: "AppState \<Rightarrow> AppState" where
  "discardSession st = st\<lparr>session := None\<rparr>"

text \<open>
  \<open>handleNext\<close> up to the call of the generator: the state after it and the request
  for remediation that it sends, if any. Reading \<open>correctIndex\<close> of a question that
  does not exist throws.
\<close>

definition handleNext ::
  "string option \<Rightarrow> bool \<Rightarrow> string \<Rightarrow> int \<Rightarrow> int \<Rightarrow> AppState \<Rightarrow>
   TypeError + AppState \<times> RemediationRequest option" where
  "handleNext userFocus manualReinforce uuid now now' st =
     (case session st of
        None \<Rightarrow> Inr (st, None)
      | Some s \<Rightarrow>
          (case selectedAnswer st of
             None \<Rightarrow> Inr (st, None)
           | Some selected \<Rightarrow>
               (let currentIdx = currentQuestionIndex s
                in if \<not> currentIdx < length (questions s) then Inl TypeError
                   else
                     (let currentQuestion = questions s ! currentIdx;
                          isCorrect = (selected = correctIndex currentQuestion);
                          updatedAnswers = setAnswer (userAnswers s) currentIdx selected;
                          shouldReinforce =
                            (manualReinforce \<or>
                             (\<not> isCorrect \<and> answerAt (userAnswers s) currentIdx = None \<and>
                              autoReinforce s));
                          nextIndex = currentIdx + 1;
                          st1 =
                            (if nextIndex < length (questions s)
                             then st\<lparr>session := Some (s\<lparr>currentQuestionIndex := nextIndex,
                                                         userAnswers := updatedAnswers\<rparr>),
                                     selectedAnswer := answerAt (userAnswers s) nextIndex\<rparr>
                             else
                               (let finalSession = s\<lparr>userAnswers := updatedAnswers\<rparr>;
                                    st' = (case processSessionCompletion uuid now now'
                                                  finalSession st of
                                             None \<Rightarrow> st
                                           | Some st'' \<Rightarrow> st'')
                                in st'\<lparr>completedSession := Some finalSession,
                                       session := None,
                                       view := Results\<rparr>))
                      in if shouldReinforce
                         then Inr (st1\<lparr>backgroundProcessing := True\<rparr>,
                                   Some \<lparr>failedQuestion = currentQuestion,
                                         examTypesR = examTypes s,
                                         complexityR = complexity s,
                                         countR = 3,
                                         userFocusR = userFocus\<rparr>)
                         else Inr (st1, None)))))"

text \<open>
  The continuation of the remediation request: \<open>then\<close> and \<open>finally\<close> when the
  generator resolves, \<open>catch\<close> and \<open>finally\<close> when it rejects.
\<close>

definition remediationResolved :: "Question list \<Rightarrow> AppState \<Rightarrow> AppState" where
  "remediationResolved remediation st =
     (let st1 =
        (if length remediation = 0 then st
         else st\<lparr>questionLibrary := addToLibrary remediation (questionLibrary st),
                 session :=
                   (case session st of
                      None \<Rightarrow> None
                    | Some prev \<Rightarrow> Some (prev\<lparr>questions := questions prev @ remediation\<rparr>))\<rparr>)
      in st1\<lparr>backgroundProcessing := False\<rparr>)"

definition remediationRejected :: "AppState \<Rightarrow> AppState" where
  "remediationRejected st = st\<lparr>backgroundProcessing := False\<rparr>"

section \<open>Concrete inputs\<close>

definition emptyStore :: Store where
  "emptyStore =
     \<lparr>historyS = None, bookmarksS = None, masteryCardsS = None, srsStatesS = None,
      questionLibraryS = None, studyPlanS = None, lifetimeStatsS = None\<rparr>"

definition exEntry1 :: HistoricalSession where
  "exEntry1 =
     \<lparr>idH = ''s2'', timestamp = 50, totalQuestions = 3, correctAnswers = 2,
      timeTakenMs = 5400000, specialtiesH = [SURGERY], examTypesH = [STEP_3],
      complexityH = Some MEDIUM, details = None\<rparr>"

definition exEntry2 :: HistoricalSession where
  "exEntry2 =
     \<lparr>idH = ''s1'', timestamp = 20, totalQuestions = 5, correctAnswers = 2,
      timeTakenMs = 1980000, specialtiesH = [ENT], examTypesH = [STEP_2_CK],
      complexityH = None, details = None\<rparr>"

definition exPayload :: Payload where
  "exPayload =
     \<lparr>historyP = Some [exEntry1, exEntry2], bookmarksP = None, masteryCardsP = None,
      srsStatesP = None, questionLibraryP = Some Map.empty, studyPlanP = None,
      lifetimeStatsP = None\<rparr>"

definition exStore :: Store where
  "exStore = emptyStore\<lparr>historyS := Some [exEntry1, exEntry2]\<rparr>"

definition exState :: SRSState where
  "exState =
     \<lparr>cardId = ''q1'', nextReview = Fin 0, interval = Fin 6, ease = Fin (5 / 2),
      repetitions = Fin 2\<rparr>"

definition exEntry3 :: HistoricalSession where
  "exEntry3 =
     \<lparr>idH = ''s3'', timestamp = 70, totalQuestions = 40, correctAnswers = 23,
      timeTakenMs = 7380000, specialtiesH = [SURGERY], examTypesH = [STEP_3],
      complexityH = Some MEDIUM, details = None\<rparr>"

definition exQuestion :: "string \<Rightarrow> string \<Rightarrow> int \<Rightarrow> Question" where
  "exQuestion i v c =
     \<lparr>idQ = i, vignette = v, options = [''A'', ''B'', ''C'', ''D'', ''E''], correctIndex = c,
      explanation = \<lparr>correct = ''c'', incorrect = ''i'', keyLearningPoint = ''k''\<rparr>,
      tags = Some [''Board Style'']\<rparr>"

definition exSessionA :: QuizSession where
  "exSessionA =
     \<lparr>questions = [exQuestion ''a1'' ''first'' 0, exQuestion ''a2'' ''second'' 3],
      currentQuestionIndex = 0, userAnswers = [], startTime = 10,
      specialties = [SURGERY], examTypes = [STEP_3], complexity = MEDIUM,
      topics = Some [], skippedIds = Some [], autoReinforce = True\<rparr>"

definition exIdle :: AppState where
  "exIdle =
     \<lparr>view = Setup, session = None, completedSession = None, isLoading = False,
      backgroundProcessing = False, selectedAnswer = None, hasKey = True, bookmarks = [],
      masteryCards = Map.empty, history = [], srsStates = Map.empty,
      questionLibrary = Map.empty, studyPlan = None, lifetimeStats = None, alerts = [],
      dbService = emptyStore\<rparr>"

definition exMissed :: AppState where
  "exMissed = exIdle\<lparr>view := Quiz, session := Some exSessionA, selectedAnswer := Some 1\<rparr>"

definition exAdvanced :: AppState where
  "exAdvanced =
     exMissed\<lparr>session := Some (exSessionA\<lparr>currentQuestionIndex := 1, userAnswers := [Some 1]\<rparr>),
              selectedAnswer := None, backgroundProcessing := True\<rparr>"

definition exRequest :: RemediationRequest where
  "exRequest =
     \<lparr>failedQuestion = exQuestion ''a1'' ''first'' 0, examTypesR = [STEP_3],
      complexityR = MEDIUM, countR = 3, userFocusR = None\<rparr>"

definition exArgs :: StartArgs where
  "exArgs =
     \<lparr>specialtiesA = [PEDIATRICS], examTypesA = [STEP_2_CK], complexityA = EASY, countA = 1,
      topicsA = [], autoReinforceA = False\<rparr>"

definition exLast :: AppState where
  "exLast =
     exIdle\<lparr>view := Quiz,
            session := Some (exSessionA\<lparr>currentQuestionIndex := 1, userAnswers := [Some 0]\<rparr>),
            selectedAnswer := Some 3\<rparr>"

text \<open>
  The last question of a quiz is answered and the quiz completed; a new quiz of two
  questions is started; advance is called at once.
\<close>

definition exCompleted :: AppState where
  "exCompleted =
     (case handleNext None False ''u'' 100 101 exLast of
        Inr (st, request) \<Rightarrow> st
      | Inl e \<Rightarrow> exLast)"

definition exNewQuiz :: AppState where
  "exNewQuiz =
     startQuiz None (Inr [exQuestion ''b1'' ''other'' 2, exQuestion ''b2'' ''more'' 0]) 200 exArgs
       exCompleted"

definition exStaleAdvance :: AppState where
  "exStaleAdvance =
     (case handleNext None False ''v'' 300 301 exNewQuiz of
        Inr (st, request) \<Rightarrow> st
      | Inl e \<Rightarrow> exNewQuiz)"

section \<open>Rounding to a double\<close>

lemma binade_ge1:
  assumes "1 \<le> x"
  shows "power_int 2 (binade x) \<le> x \<and> x < power_int 2 (binade x + 1)"
proof -
  define m where "m = \<lfloor>x\<rfloor>"
  have m1: "1 \<le> m" using assms unfolding m_def by simp
  then have mpos: "0 < m" by simp
  have b1: "1 \<le> bitlen m" using mpos by (simp add: bitlen_alt_def)
  from bitlen_bounds[OF mpos] have lo: "2 ^ nat (bitlen m - 1) \<le> m" and hi: "m < 2 ^ nat (bitlen m)"
    by auto
  have bx: "binade x = bitlen m - 1" using assms by (simp add: binade_def m_def)
  have p1: "(power_int 2 (bitlen m - 1) :: rat) = of_int (2 ^ nat (bitlen m - 1))"
    using b1 by (simp add: power_int_def)
  have p2: "(power_int 2 (bitlen m - 1 + 1) :: rat) = of_int (2 ^ nat (bitlen m))"
    using b1 by (simp add: power_int_def)
  have "(of_int (2 ^ nat (bitlen m - 1)) :: rat) \<le> of_int m"
    using lo by (simp only: of_int_le_iff)
  also have "\<dots> \<le> x" unfolding m_def by (rule of_int_floor_le)
  finally have A: "power_int 2 (binade x) \<le> x" by (simp only: bx p1)
  have "m + 1 \<le> 2 ^ nat (bitlen m)" using hi by simp
  then have "(of_int (m + 1) :: rat) \<le> of_int (2 ^ nat (bitlen m))"
    by (simp only: of_int_le_iff)
  moreover have "x < of_int (m + 1)" unfolding m_def using floor_correct[of x] by simp
  ultimately have B: "x < power_int 2 (binade x + 1)" by (simp only: bx p2)
  from A B show ?thesis ..
qed

lemma binade_lt1:
  assumes "0 < x" "x < 1"
  shows "power_int 2 (binade x) \<le> x \<and> x < power_int 2 (binade x + 1)"
proof -
  define y where "y = 1 / x"
  have y1: "1 < y" using assms by (simp add: y_def)
  define m where "m = \<lceil>y\<rceil>"
  have m2: "2 \<le> m" using y1 unfolding m_def by (simp add: le_ceiling_iff)
  define n where "n = m - 1"
  have npos: "0 < n" using m2 by (simp add: n_def)
  define k where "k = bitlen n"
  have k1: "1 \<le> k" using npos by (simp add: k_def bitlen_alt_def)
  from bitlen_bounds[OF npos] have lo: "2 ^ nat (k - 1) \<le> n" and hi: "n < 2 ^ nat k"
    by (auto simp: k_def)
  have bx: "binade x = - k" using assms by (simp add: binade_def k_def n_def m_def y_def)
  have ym: "y \<le> of_int m" unfolding m_def by (rule le_of_int_ceiling)
  have ny: "of_int n < y" unfolding n_def m_def using ceiling_correct[of y] by simp
  have e1: "(of_int ((2::int) ^ nat k) :: rat) = 2 ^ nat k" by simp
  have e2: "(of_int ((2::int) ^ nat (k - 1)) :: rat) = 2 ^ nat (k - 1)" by simp
  have "m \<le> 2 ^ nat k" using hi by (simp add: n_def)
  then have "(of_int m :: rat) \<le> of_int (2 ^ nat k)" by (simp only: of_int_le_iff)
  then have yhi: "y \<le> 2 ^ nat k" using ym e1 by linarith
  have "(of_int (2 ^ nat (k - 1)) :: rat) \<le> of_int n" using lo by (simp only: of_int_le_iff)
  then have ylo: "2 ^ nat (k - 1) < y" using ny e2 by linarith
  have xpos: "0 < x" by fact
  have xy: "x = 1 / y" by (simp add: y_def)
  have A: "power_int 2 (- k) \<le> x"
  proof -
    have "1 / 2 ^ nat k \<le> 1 / y"
      using yhi y1 by (intro divide_left_mono) auto
    moreover have "(power_int 2 (- k) :: rat) = 1 / 2 ^ nat k"
      using k1 by (simp add: power_int_def field_simps)
    ultimately show ?thesis by (simp add: xy)
  qed
  have B: "x < power_int 2 (- k + 1)"
  proof -
    have ypos: "0 < y" using y1 by simp
    have "1 / y < 1 / 2 ^ nat (k - 1)"
      using ylo ypos by (intro divide_strict_left_mono) (auto intro: mult_pos_pos)
    moreover have "(power_int 2 (- k + 1) :: rat) = 1 / 2 ^ nat (k - 1)"
    proof -
      have "- k + 1 = - int (nat (k - 1))" using k1 by simp
      then show ?thesis by (simp only: power_int_minus power_int_of_nat) (simp add: field_simps)
    qed
    ultimately show ?thesis by (simp add: xy)
  qed
  from A B show ?thesis by (simp only: bx)
qed

lemma binade_bounds:
  "0 < x \<Longrightarrow> power_int 2 (binade x) \<le> x \<and> x < power_int 2 (binade x + 1)"
  using binade_ge1[of x] binade_lt1[of x] by (cases "1 \<le> x") auto


lemma roundEven_cases:
  "roundEven x = \<lfloor>x\<rfloor> \<and> x - of_int \<lfloor>x\<rfloor> \<le> 1 / 2 \<or>
   roundEven x = \<lfloor>x\<rfloor> + 1 \<and> 1 / 2 \<le> x - of_int \<lfloor>x\<rfloor>"
  by (auto simp add: roundEven_def Let_def)

lemma roundEven_near: "\<bar>of_int (roundEven x) - x\<bar> \<le> 1 / 2"
proof -
  have a: "of_int \<lfloor>x\<rfloor> \<le> x" by (rule of_int_floor_le)
  have "x < of_int (\<lfloor>x\<rfloor> + 1)" using floor_correct[of x] by (rule conjunct2)
  then have b: "x < of_int \<lfloor>x\<rfloor> + 1" by simp
  from roundEven_cases[of x] show ?thesis
  proof
    assume c: "roundEven x = \<lfloor>x\<rfloor> \<and> x - of_int \<lfloor>x\<rfloor> \<le> 1 / 2"
    then have "of_int (roundEven x) = (of_int \<lfloor>x\<rfloor> :: rat)" by simp
    with c a show ?thesis by linarith
  next
    assume c: "roundEven x = \<lfloor>x\<rfloor> + 1 \<and> 1 / 2 \<le> x - of_int \<lfloor>x\<rfloor>"
    then have "of_int (roundEven x) = (of_int \<lfloor>x\<rfloor> :: rat) + 1" by simp
    with c b show ?thesis by linarith
  qed
qed

lemma roundEven_unique:
  assumes "\<bar>of_int n - x\<bar> < 1 / 2"
  shows "roundEven x = n"
proof -
  have "\<bar>of_int (roundEven x) - x\<bar> \<le> 1 / 2" by (rule roundEven_near)
  with assms have "\<bar>(of_int (roundEven x) :: rat) - of_int n\<bar> < 1" by linarith
  then have "\<bar>(of_int (roundEven x - n) :: rat)\<bar> < 1" by simp
  then have "\<bar>roundEven x - n\<bar> < 1"
    by (metis of_int_abs of_int_less_1_iff)
  then show ?thesis by linarith
qed

lemma roundEven_of_int [simp]: "roundEven (of_int n) = n"
  by (rule roundEven_unique) simp

lemma pow2_less_imp:
  assumes "(power_int 2 a :: rat) < power_int 2 b"
  shows "a < b"
proof (rule ccontr)
  assume "\<not> a < b"
  then have "b \<le> a" by simp
  then have "(power_int 2 b :: rat) \<le> power_int 2 a"
    by (rule power_int_increasing) simp
  with assms show False by simp
qed

lemma binade_unique:
  assumes "0 < x" "power_int 2 e \<le> x" "x < power_int 2 (e + 1)"
  shows "binade x = e"
proof -
  from binade_bounds[OF assms(1)]
  have lo: "power_int 2 (binade x) \<le> x" and hi: "x < power_int 2 (binade x + 1)" by auto
  have "(power_int 2 e :: rat) < power_int 2 (binade x + 1)" using assms(2) hi by linarith
  then have 1: "e < binade x + 1" by (rule pow2_less_imp)
  have "(power_int 2 (binade x) :: rat) < power_int 2 (e + 1)" using lo assms(3) by linarith
  then have 2: "binade x < e + 1" by (rule pow2_less_imp)
  from 1 2 show ?thesis by linarith
qed

lemma fl_pos:
  "0 < x \<Longrightarrow> fl x = (if power_int 2 1024 \<le> nearest x then PInf else Fin (nearest x))"
  by (simp add: fl_def Let_def nearest_def quantum_def)

lemma fl_neg:
  "x < 0 \<Longrightarrow> fl x = (if power_int 2 1024 \<le> nearest (- x) then NInf else Fin (- nearest (- x)))"
  by (simp add: fl_def Let_def nearest_def quantum_def abs_if)

lemma quantum_pos: "0 < quantum a"
  by (simp add: quantum_def)

lemma nearest_near: "\<bar>nearest a - a\<bar> \<le> quantum a / 2"
proof -
  define q where "q = quantum a"
  have qpos: "0 < q" unfolding q_def by (rule quantum_pos)
  define n :: rat where "n = of_int (roundEven (a / q))"
  have "\<bar>n - a / q\<bar> \<le> 1 / 2" unfolding n_def by (rule roundEven_near)
  then have "\<bar>n - a / q\<bar> * q \<le> 1 / 2 * q"
    using qpos by (intro mult_right_mono) auto
  moreover have "\<bar>n - a / q\<bar> * q = \<bar>n * q - a\<bar>"
  proof -
    have "\<bar>n - a / q\<bar> * q = \<bar>n - a / q\<bar> * \<bar>q\<bar>" using qpos by simp
    also have "\<dots> = \<bar>(n - a / q) * q\<bar>" by (simp only: abs_mult)
    also have "(n - a / q) * q = n * q - a" using qpos by (simp add: field_simps)
    finally show ?thesis .
  qed
  ultimately have "\<bar>n * q - a\<bar> \<le> q / 2" by simp
  then show ?thesis by (simp add: nearest_def n_def q_def)
qed

lemma nearest_nonneg: "0 \<le> a \<Longrightarrow> 0 \<le> nearest a"
proof -
  assume a: "0 \<le> a"
  define n where "n = roundEven (a / quantum a)"
  define z where "z = a / quantum a"
  have z: "0 \<le> z" unfolding z_def using a quantum_pos[of a] by simp
  have "\<bar>of_int n - z\<bar> \<le> 1 / 2"
    unfolding n_def z_def by (rule roundEven_near)
  then have "z - of_int n \<le> 1 / 2" by (simp only: abs_le_iff) linarith
  with z have "- 1 < (of_int n :: rat)" by linarith
  then have "(of_int (- 1) :: rat) < of_int n" by simp
  then have "- 1 < n" by (simp only: of_int_less_iff)
  then have "0 \<le> n" by simp
  then have "0 \<le> (of_int n :: rat)" by simp
  then show ?thesis
    unfolding nearest_def n_def[symmetric] using quantum_pos[of a]
    by (intro mult_nonneg_nonneg) auto
qed

lemma quantum_normal:
  assumes "power_int 2 (- 1022) \<le> a"
  shows "quantum a = power_int 2 (binade a) / 2 ^ 52" and "quantum a \<le> a / 2 ^ 52"
proof -
  have apos: "0 < a"
  proof -
    have "(0::rat) < power_int 2 (- 1022)" by simp
    with assms show ?thesis by linarith
  qed
  from binade_bounds[OF apos]
  have lo: "power_int 2 (binade a) \<le> a" and hi: "a < power_int 2 (binade a + 1)" by auto
  have "(power_int 2 (- 1022) :: rat) < power_int 2 (binade a + 1)" using assms hi by linarith
  then have "- 1022 < binade a + 1" by (rule pow2_less_imp)
  then have m: "max (binade a) (- 1022) = binade a" by simp
  have "(power_int 2 (binade a - 52) :: rat) = power_int 2 (binade a) / power_int 2 52"
    by (rule power_int_diff) simp
  then show q: "quantum a = power_int 2 (binade a) / 2 ^ 52"
    by (simp add: quantum_def m)
  show "quantum a \<le> a / 2 ^ 52"
    unfolding q using lo by (simp add: divide_right_mono)
qed

lemma fl_error_pos:
  assumes "power_int 2 (- 1022) \<le> x"
  shows "fl x = PInf \<or> (\<exists>y. fl x = Fin y \<and> \<bar>y - x\<bar> \<le> x / 2 ^ 53 \<and> 0 \<le> y \<and> y < power_int 2 1024)"
proof -
  have xpos: "0 < x"
  proof -
    have "(0::rat) < power_int 2 (- 1022)" by simp
    with assms show ?thesis by linarith
  qed
  have "\<bar>nearest x - x\<bar> \<le> quantum x / 2" by (rule nearest_near)
  moreover have "quantum x / 2 \<le> (x / 2 ^ 52) / 2"
    using quantum_normal(2)[OF assms] by simp
  moreover have "(x / 2 ^ 52) / 2 = x / 2 ^ 53" by simp
  ultimately have e: "\<bar>nearest x - x\<bar> \<le> x / 2 ^ 53" by linarith
  have n: "0 \<le> nearest x" using xpos by (intro nearest_nonneg) simp
  show ?thesis
  proof (cases "power_int 2 1024 \<le> nearest x")
    case True
    then show ?thesis by (simp add: fl_pos[OF xpos])
  next
    case False
    then have "fl x = Fin (nearest x)" by (simp add: fl_pos[OF xpos])
    moreover have "nearest x < power_int 2 1024" using False by simp
    ultimately show ?thesis using e n by blast
  qed
qed




lemma fl_eqI:
  assumes "0 < x" "power_int 2 e \<le> x" "x < power_int 2 (e + 1)" "- 1022 \<le> e"
    and "\<bar>of_int n - x / power_int 2 (e - 52)\<bar> < 1 / 2"
    and "(of_int n :: rat) * power_int 2 (e - 52) < power_int 2 1024"
  shows "fl x = Fin (of_int n * power_int 2 (e - 52))"
proof -
  have b: "binade x = e" using assms(1-3) by (rule binade_unique)
  have q: "quantum x = power_int 2 (e - 52)"
    using assms(4) by (simp add: quantum_def b)
  have r: "roundEven (x / power_int 2 (e - 52)) = n"
    using assms(5) by (rule roundEven_unique)
  have "nearest x = of_int n * power_int 2 (e - 52)"
    by (simp only: nearest_def q r)
  then show ?thesis using assms(6) by (simp add: fl_pos[OF assms(1)])
qed

lemma nearest_of_int:
  assumes "0 < k" "k \<le> 2 ^ 53"
  shows "nearest (of_int k) = of_int k"
proof -
  define x :: rat where "x = of_int k"
  have xpos: "0 < x" using assms(1) by (simp add: x_def)
  define e where "e = binade x"
  from binade_bounds[OF xpos]
  have lo: "power_int 2 e \<le> x" and hi: "x < power_int 2 (e + 1)" by (auto simp: e_def)
  have x1: "1 \<le> x" using assms(1) by (simp add: x_def)
  have xle: "x \<le> 2 ^ 53"
  proof -
    have "(of_int k :: rat) \<le> of_int (2 ^ 53)" using assms(2) by (simp only: of_int_le_iff)
    then show ?thesis by (simp add: x_def)
  qed
  have "(power_int 2 0 :: rat) < power_int 2 (e + 1)" using x1 hi by simp
  then have e0: "0 \<le> e" using pow2_less_imp[of 0 "e + 1"] by simp
  have "(power_int 2 e :: rat) < power_int 2 54" using lo xle by simp
  then have e53: "e \<le> 53" using pow2_less_imp[of e 54] by simp
  have q: "quantum x = power_int 2 (e - 52)"
    using e0 by (simp add: quantum_def e_def)
  have "\<exists>m::int. x / power_int 2 (e - 52) = of_int m"
  proof (cases "e \<le> 52")
    case True
    then have "(power_int 2 (e - 52) :: rat) = inverse (2 ^ nat (52 - e))"
      using power_int_minus[of "2::rat" "52 - e"] by (simp add: power_int_def)
    then have "x / power_int 2 (e - 52) = x * 2 ^ nat (52 - e)"
      by (simp add: field_simps)
    also have "\<dots> = of_int (k * 2 ^ nat (52 - e))" by (simp add: x_def)
    finally show ?thesis by blast
  next
    case False
    with e53 have e: "e = 53" by simp
    have "(2 ^ 53 :: rat) \<le> x" using lo by (simp add: e)
    with xle have "x = 2 ^ 53" by simp
    then have "x / power_int 2 (e - 52) = of_int (2 ^ 52)" by (simp add: e)
    then show ?thesis by blast
  qed
  then obtain m :: int where m: "x / power_int 2 (e - 52) = of_int m" by blast
  have qpos: "(0::rat) < power_int 2 (e - 52)" by simp
  have "nearest x = of_int m * power_int 2 (e - 52)"
    by (simp add: nearest_def q m)
  also have "\<dots> = x / power_int 2 (e - 52) * power_int 2 (e - 52)" by (simp only: m)
  also have "\<dots> = x" using qpos by simp
  finally show ?thesis by (simp add: x_def)
qed

lemma fl_of_int:
  assumes "\<bar>k\<bar> \<le> 2 ^ 53"
  shows "fl (of_int k) = Fin (of_int k)"
proof -
  have big: "(2 ^ 53 :: rat) < power_int 2 1024" by simp
  consider "k = 0" | "0 < k" | "k < 0" by linarith
  then show ?thesis
  proof cases
    case 1
    then show ?thesis by (simp add: fl_def)
  next
    case 2
    then have n: "nearest (of_int k) = of_int k" using assms by (intro nearest_of_int) auto
    have "k \<le> 2 ^ 53" using assms 2 by simp
    then have "(of_int k :: rat) \<le> of_int (2 ^ 53)" by (simp only: of_int_le_iff)
    then have "(of_int k :: rat) < power_int 2 1024" using big by simp
    then show ?thesis using 2 by (simp add: fl_pos n)
  next
    case 3
    then have n: "nearest (of_int (- k)) = of_int (- k)" using assms by (intro nearest_of_int) auto
    have "- k \<le> 2 ^ 53" using assms 3 by simp
    then have "(of_int (- k) :: rat) \<le> of_int (2 ^ 53)" by (simp only: of_int_le_iff)
    then have "(of_int (- k) :: rat) < power_int 2 1024" using big by simp
    moreover have "nearest (- of_int k) = - of_int k" using n by simp
    ultimately show ?thesis using 3 by (simp add: fl_neg)
  qed
qed

lemma fl_numeral [simp]:
  "numeral n \<le> (2 ^ 53 :: int) \<Longrightarrow> fl (numeral n) = Fin (numeral n)"
  using fl_of_int[of "numeral n"] by simp

lemma fl_0 [simp]: "fl 0 = Fin 0"
  by (simp add: fl_def)

lemma fl_1 [simp]: "fl 1 = Fin 1"
  using fl_of_int[of 1] by simp

lemma fl_finite_pos:
  assumes "0 < x" "x \<le> power_int 2 1023"
  shows "\<exists>y. fl x = Fin y"
proof -
  from binade_bounds[OF assms(1)] have lo: "power_int 2 (binade x) \<le> x" by simp
  have "(power_int 2 (binade x) :: rat) < power_int 2 1024"
  proof -
    have "(power_int 2 1023 :: rat) < power_int 2 1024"
      by (rule power_int_strict_increasing) simp_all
    with lo assms(2) show ?thesis by linarith
  qed
  then have "binade x < 1024" by (rule pow2_less_imp)
  then have "max (binade x) (- 1022) - 52 \<le> 971" by simp
  then have q: "quantum x \<le> power_int 2 971"
    unfolding quantum_def by (intro power_int_increasing) simp_all
  have "\<bar>nearest x - x\<bar> \<le> quantum x / 2" by (rule nearest_near)
  then have "nearest x \<le> x + quantum x / 2" by (simp only: abs_le_iff) linarith
  also have "\<dots> \<le> power_int 2 1023 + power_int 2 971 / 2" using assms(2) q by simp
  also have "\<dots> < power_int 2 1024" by simp
  finally show ?thesis by (simp add: fl_pos[OF assms(1)])
qed

section \<open>Bounds for the operations on doubles\<close>




lemma fl_normal:
  assumes "power_int 2 (- 1022) \<le> x" "x \<le> power_int 2 1023"
  shows "\<exists>y. fl x = Fin y \<and> \<bar>y - x\<bar> \<le> x / 2 ^ 53 \<and> 0 \<le> y"
proof -
  have xpos: "0 < x"
  proof -
    have "(0::rat) < power_int 2 (- 1022)" by simp
    with assms(1) show ?thesis by linarith
  qed
  from fl_finite_pos[OF xpos assms(2)] obtain y where y: "fl x = Fin y" ..
  from fl_error_pos[OF assms(1)] y show ?thesis by auto
qed



lemma le_pow2_1023: "c \<le> 2 ^ 60 \<Longrightarrow> (c::rat) \<le> power_int 2 1023"
proof -
  assume c: "c \<le> 2 ^ 60"
  have "(power_int 2 60 :: rat) \<le> power_int 2 1023"
    by (rule power_int_increasing) simp_all
  with c show ?thesis by simp
qed













section \<open>Properties of the scheduler\<close>


lemma srsEntry_fields:
  "interval (srsEntry now rating c) = fst (rate rating (interval c, ease c, repetitions c))"
  "ease (srsEntry now rating c) = fst (snd (rate rating (interval c, ease c, repetitions c)))"
  "repetitions (srsEntry now rating c) = snd (snd (rate rating (interval c, ease c, repetitions c)))"
  "nextReview (srsEntry now rating c) =
     addD (fl (of_int now)) (daysInMs (interval (srsEntry now rating c)))"
  "cardId (srsEntry now rating c) = cardId c"
  by (simp_all add: srsEntry_def daysInMs_def split: prod.splits)








text \<open>
  Claim C10. A rating changes only the entry stored under the rated identifier: every
  other key maps to what it mapped to before, and the new entry carries the identifier
  field of the entry it replaces (the key itself for an item rated for the first time).
\<close>

theorem updateSRS_frame:
  "(\<forall>k. k \<noteq> cid \<longrightarrow> updateSRS now cid rating prev k = prev k) \<and>
   (\<exists>s. updateSRS now cid rating prev cid = Some s \<and>
        cardId s = cardId (currentSRS prev cid)) \<and>
   (prev cid = None \<longrightarrow> cardId (currentSRS prev cid) = cid)"
  by (simp add: updateSRS_def srsEntry_fields(5) currentSRS_def defaultSRS_def)

theorem updateSRS_frame_witness:
  "updateSRS 7 ''a'' Easy [''b'' \<mapsto> exState] ''b'' = Some exState \<and>
   (\<exists>s. updateSRS 7 ''a'' Easy [''b'' \<mapsto> exState] ''a'' = Some s \<and> cardId s = ''a'')"
  using updateSRS_frame [of "''a''" 7 Easy "[''b'' \<mapsto> exState]"]
  by (auto simp add: currentSRS_def defaultSRS_def)
















section \<open>Properties of the analytics and of the import\<close>

lemma num_safe: "\<bar>v\<bar> \<le> 2 ^ 53 \<Longrightarrow> num v = Fin (of_int v)"
  by (simp add: num_def fl_of_int)

lemma foldl_addD_exact:
  assumes "\<forall>s \<in> set h. 0 \<le> f s" "0 \<le> a" "a + sum_list (map f h) \<le> 2 ^ 53"
  shows "foldl (\<lambda>acc s. addD acc (num (f s))) (Fin (of_int a)) h =
         Fin (of_int (a + sum_list (map f h)))"
  using assms
proof (induction h arbitrary: a)
  case Nil
  then show ?case by simp
next
  case (Cons s h)
  have nn: "0 \<le> sum_list (map f h)"
    using Cons.prems(1) by (intro sum_list_nonneg) auto
  have fs: "0 \<le> f s" using Cons.prems(1) by simp
  have b1: "\<bar>f s\<bar> \<le> 2 ^ 53" using fs nn Cons.prems(2,3) by simp
  have b2: "\<bar>a + f s\<bar> \<le> 2 ^ 53" using fs nn Cons.prems(2,3) by simp
  have "addD (Fin (of_int a)) (num (f s)) = fl (of_int (a + f s))"
    by (simp add: num_safe[OF b1])
  also have "\<dots> = Fin (of_int (a + f s))" using b2 by (rule fl_of_int)
  finally have step: "addD (Fin (of_int a)) (num (f s)) = Fin (of_int (a + f s))" .
  have "foldl (\<lambda>acc s. addD acc (num (f s))) (Fin (of_int (a + f s))) h =
        Fin (of_int (a + f s + sum_list (map f h)))"
  proof (rule Cons.IH)
    show "\<forall>s \<in> set h. 0 \<le> f s" using Cons.prems(1) by simp
    show "0 \<le> a + f s" using fs Cons.prems(2) by simp
    show "a + f s + sum_list (map f h) \<le> 2 ^ 53" using Cons.prems(3) by (simp add: add.assoc)
  qed
  then show ?case by (simp add: step add.assoc)
qed

lemma foldl_addD_sum:
  assumes "\<forall>s \<in> set h. 0 \<le> f s" "sum_list (map f h) \<le> 2 ^ 53"
  shows "foldl (\<lambda>acc s. addD acc (num (f s))) (Fin 0) h = Fin (of_int (sum_list (map f h)))"
  using foldl_addD_exact[of h f 0] assms by simp

lemma hd_sort_key_Min:
  fixes f :: "'a \<Rightarrow> int"
  assumes "xs \<noteq> []"
  shows "f (hd (sort_key f xs)) = Min (f ` set xs)"
proof -
  have ne: "sort_key f xs \<noteq> []"
    using assms by (metis length_sort list.size(3) length_0_conv)
  then obtain y ys where ys: "sort_key f xs = y # ys"
    by (cases "sort_key f xs") auto
  have "sorted (map f (sort_key f xs))" by simp
  then have le: "\<forall>z \<in> set (y # ys). f y \<le> f z"
    by (auto simp: ys)
  have st: "set (y # ys) = set xs"
    using ys by (metis set_sort)
  have "Min (f ` set xs) = f y"
  proof (rule Min_eqI)
    show "finite (f ` set xs)" by simp
    show "\<And>v. v \<in> f ` set xs \<Longrightarrow> f y \<le> v" using le st by auto
    show "f y \<in> f ` set xs" using st by auto
  qed
  then show ?thesis by (simp add: ys)
qed

lemma pow2_m1022_le': "1 / 2 ^ 60 \<le> c \<Longrightarrow> power_int 2 (- 1022) \<le> (c::rat)"
proof -
  assume c: "1 / 2 ^ 60 \<le> c"
  have "(power_int 2 (- 1022) :: rat) \<le> power_int 2 (- 60)"
    by (rule power_int_increasing) simp_all
  also have "\<dots> = 1 / 2 ^ 60" by (simp add: power_int_minus field_simps)
  finally show ?thesis using c by linarith
qed

lemma floor_half_near:
  fixes y :: rat
  shows "\<bar>of_int \<lfloor>y + 1 / 2\<rfloor> - y\<bar> \<le> 1 / 2"
proof -
  define z :: rat where "z = of_int \<lfloor>y + 1 / 2\<rfloor>"
  have a: "z \<le> y + 1 / 2" unfolding z_def by (rule of_int_floor_le)
  have "y + 1 / 2 < of_int (\<lfloor>y + 1 / 2\<rfloor> + 1)"
    using floor_correct[of "y + 1 / 2"] by (rule conjunct2)
  then have b: "y + 1 / 2 < z + 1" unfolding z_def by simp
  show ?thesis unfolding z_def[symmetric] using a b by (simp only: abs_le_iff) linarith
qed

lemma floor_half: "\<lfloor>1 / 2 :: rat\<rfloor> = 0"
  by (rule floor_unique) simp_all

lemma accuracy_bound:
  assumes "0 < t" "0 \<le> c" "c \<le> t" "t \<le> 2 ^ 53"
  shows "\<exists>n::int. Math_round (mulD (divD (Fin (of_int c)) (Fin (of_int t))) (Fin 100)) = Fin (of_int n) \<and>
           \<bar>(of_int n :: rat) - 100 * of_int c / of_int t\<bar> \<le> 1 / 2 + 1 / 10 ^ 12"
proof (cases "c = 0")
  case True
  have "Math_round (mulD (divD (Fin (of_int c)) (Fin (of_int t))) (Fin 100)) = Fin (of_int 0)"
    using assms(1) by (simp add: True Math_round_def floor_half)
  then show ?thesis using True by (intro exI[of _ 0]) simp
next
  case False
  define x :: rat where "x = of_int c / of_int t"
  have tpos: "(0::rat) < of_int t" using assms(1) by simp
  have c1: "(1::rat) \<le> of_int c" using False assms(2) by simp
  have ct: "(of_int c :: rat) \<le> of_int t" using assms(3) by simp
  have t53: "(of_int t :: rat) \<le> 2 ^ 53"
  proof -
    have "(of_int t :: rat) \<le> of_int (2 ^ 53)" using assms(4) by (simp only: of_int_le_iff)
    then show ?thesis by simp
  qed
  have xle: "x \<le> 1" unfolding x_def using ct tpos by simp
  have xge: "1 / 2 ^ 53 \<le> x"
  proof -
    have "1 / 2 ^ 53 \<le> 1 / (of_int t :: rat)"
      using t53 tpos by (intro divide_left_mono) auto
    also have "\<dots> \<le> of_int c / of_int t"
      using c1 tpos by (intro divide_right_mono) auto
    finally show ?thesis by (simp add: x_def)
  qed
  have x60: "1 / 2 ^ 60 \<le> x"
  proof -
    have "(1 / 2 ^ 60 :: rat) \<le> 1 / 2 ^ 53" by simp
    with xge show ?thesis by linarith
  qed
  have "\<exists>y. fl x = Fin y \<and> \<bar>y - x\<bar> \<le> x / 2 ^ 53 \<and> 0 \<le> y"
    by (rule fl_normal[OF pow2_m1022_le'[OF x60]]) (use xle in \<open>auto intro: le_pow2_1023\<close>)
  then obtain y where y: "fl x = Fin y" and ye: "\<bar>y - x\<bar> \<le> x / 2 ^ 53" by blast
  have xs: "x / 2 ^ 53 \<le> 1 / 2 ^ 53" using xle by (simp add: divide_right_mono)
  have xs': "x / 2 ^ 53 \<le> x / 2" using xge by (intro divide_left_mono) auto
  from ye have ylo: "x - x / 2 ^ 53 \<le> y" and yhi: "y \<le> x + x / 2 ^ 53"
    by (simp_all only: abs_le_iff) linarith+
  have y60: "1 / 2 ^ 60 \<le> y * 100"
  proof -
    have "x / 2 \<le> y" using ylo xs' by linarith
    then have "1 / 2 ^ 54 \<le> y" using xge by simp
    moreover have "(1 / 2 ^ 60 :: rat) \<le> 1 / 2 ^ 54" by simp
    moreover have "(0::rat) < 1 / 2 ^ 54" by simp
    ultimately show ?thesis by linarith
  qed
  have yle: "y \<le> 2" using yhi xle xs by simp
  have "\<exists>z. fl (y * 100) = Fin z \<and> \<bar>z - y * 100\<bar> \<le> y * 100 / 2 ^ 53 \<and> 0 \<le> z"
    by (rule fl_normal[OF pow2_m1022_le'[OF y60]]) (use yle in \<open>auto intro: le_pow2_1023\<close>)
  then obtain z where z: "fl (y * 100) = Fin z" and ze: "\<bar>z - y * 100\<bar> \<le> y * 100 / 2 ^ 53"
    by blast
  define n where "n = \<lfloor>z + 1 / 2\<rfloor>"
  have ne: "\<bar>of_int n - z\<bar> \<le> 1 / 2" unfolding n_def by (rule floor_half_near)
  have tne: "of_int t \<noteq> (0::rat)" using tpos by simp
  have val: "Math_round (mulD (divD (Fin (of_int c)) (Fin (of_int t))) (Fin 100)) = Fin (of_int n)"
    using tne by (simp add: x_def[symmetric] y z Math_round_def n_def)
  have e1: "\<bar>z - y * 100\<bar> \<le> 200 / 2 ^ 53"
  proof -
    have "y * 100 / 2 ^ 53 \<le> 2 * 100 / 2 ^ 53" using yle by (intro divide_right_mono) auto
    with ze show ?thesis by simp
  qed
  have e2: "\<bar>y * 100 - x * 100\<bar> \<le> 100 / 2 ^ 53"
  proof -
    have "\<bar>y - x\<bar> \<le> 1 / 2 ^ 53" using ye xs by linarith
    then have "\<bar>y - x\<bar> * 100 \<le> 1 / 2 ^ 53 * 100" by (intro mult_right_mono) auto
    moreover have "\<bar>y * 100 - x * 100\<bar> = \<bar>y - x\<bar> * 100"
    proof -
      have "y * 100 - x * 100 = (y - x) * 100" by (simp only: left_diff_distrib)
      then have "\<bar>y * 100 - x * 100\<bar> = \<bar>(y - x) * 100\<bar>" by (simp only:)
      also have "\<dots> = \<bar>y - x\<bar> * \<bar>100\<bar>" by (rule abs_mult)
      finally show ?thesis by simp
    qed
    ultimately show ?thesis by simp
  qed
  have "\<bar>of_int n - x * 100\<bar> \<le> 1 / 2 + 300 / 2 ^ 53"
    using ne e1 e2 by linarith
  moreover have "(300 / 2 ^ 53 :: rat) \<le> 1 / 10 ^ 12" by simp
  moreover have "x * 100 = 100 * of_int c / of_int t" by (simp add: x_def)
  ultimately have "\<bar>(of_int n :: rat) - 100 * of_int c / of_int t\<bar> \<le> 1 / 2 + 1 / 10 ^ 12"
    by linarith
  with val show ?thesis by blast
qed

lemma hours_bound:
  assumes "0 \<le> m" "m \<le> 2 ^ 53"
  shows "\<exists>n::int. toFixed1 (divD (Fin (of_int m)) (Fin 3600000)) = fl (of_int n / 10) \<and>
           \<bar>(of_int n :: rat) / 10 - of_int m / 3600000\<bar> \<le> 1 / 20 + 1 / 10 ^ 6"
proof (cases "m = 0")
  case True
  have "toFixed1 (divD (Fin (of_int m)) (Fin 3600000)) = fl (of_int 0 / 10)"
    by (simp add: True toFixed1_def floor_half)
  then show ?thesis using True by (intro exI[of _ 0]) simp
next
  case False
  define x :: rat where "x = of_int m / 3600000"
  have m1: "(1::rat) \<le> of_int m" using False assms(1) by simp
  have m53: "(of_int m :: rat) \<le> 2 ^ 53"
  proof -
    have "(of_int m :: rat) \<le> of_int (2 ^ 53)" using assms(2) by (simp only: of_int_le_iff)
    then show ?thesis by simp
  qed
  have xge: "1 / 3600000 \<le> x" unfolding x_def using m1 by (simp add: divide_right_mono)
  have xle: "x \<le> 2 ^ 53 / 3600000" unfolding x_def using m53 by (simp add: divide_right_mono)
  have x60: "1 / 2 ^ 60 \<le> x"
  proof -
    have "(1 / 2 ^ 60 :: rat) \<le> 1 / 3600000" by simp
    with xge show ?thesis by linarith
  qed
  have x32: "x \<le> 2 ^ 32"
  proof -
    have "(2 ^ 53 / 3600000 :: rat) \<le> 2 ^ 32" by simp
    with xle show ?thesis by linarith
  qed
  have x60': "x \<le> 2 ^ 60"
  proof -
    have "(2 ^ 32 :: rat) \<le> 2 ^ 60" by simp
    with x32 show ?thesis by linarith
  qed
  have "\<exists>y. fl x = Fin y \<and> \<bar>y - x\<bar> \<le> x / 2 ^ 53 \<and> 0 \<le> y"
    by (rule fl_normal[OF pow2_m1022_le'[OF x60] le_pow2_1023[OF x60']])
  then obtain y where y: "fl x = Fin y" and ye: "\<bar>y - x\<bar> \<le> x / 2 ^ 53" and y0: "0 \<le> y"
    by blast
  have xs: "x / 2 ^ 53 \<le> 1 / 2 ^ 21"
  proof -
    have "x / 2 ^ 53 \<le> 2 ^ 32 / 2 ^ 53" using x32 by (intro divide_right_mono) auto
    then show ?thesis by simp
  qed
  have ysmall: "\<not> 10 ^ 21 \<le> \<bar>y\<bar>"
  proof -
    have "y \<le> x + 1 / 2 ^ 21" using ye xs by (simp only: abs_le_iff) linarith
    then have "y \<le> 2 ^ 32 + 1" using x32 by simp
    moreover have "(2 ^ 32 + 1 :: rat) < 10 ^ 21" by simp
    ultimately show ?thesis using y0 by simp
  qed
  define n where "n = \<lfloor>y * 10 + 1 / 2\<rfloor>"
  have val: "toFixed1 (divD (Fin (of_int m)) (Fin 3600000)) = fl (of_int n / 10)"
    using ysmall y0 by (simp add: x_def[symmetric] y toFixed1_def n_def)
  have ne: "\<bar>of_int n - y * 10\<bar> \<le> 1 / 2" unfolding n_def by (rule floor_half_near)
  have "\<bar>of_int n / 10 - y\<bar> \<le> 1 / 20"
    using ne by (simp only: abs_le_iff) linarith
  moreover have "\<bar>y - x\<bar> \<le> 1 / 2 ^ 21" using ye xs by linarith
  moreover have "(1 / 2 ^ 21 :: rat) \<le> 1 / 10 ^ 6" by simp
  ultimately have "\<bar>of_int n / 10 - x\<bar> \<le> 1 / 20 + 1 / 10 ^ 6" by linarith
  with val show ?thesis unfolding x_def by blast
qed

lemma accuracy_zero_total:
  assumes "0 \<le> c"
  shows "Math_round (mulD (divD (Fin (of_int c)) (Fin 0)) (Fin 100)) \<noteq> Fin x"
  using assms by (simp add: Math_round_def positive_def)

lemma updateAnalytics_Some:
  "updateAnalytics now (Some h) db =
     (if h = [] then (emptyStats now, db\<lparr>lifetimeStatsS := Some (emptyStats now)\<rparr>)
      else (computeStats h, db\<lparr>lifetimeStatsS := Some (computeStats h)\<rparr>))"
  by (simp add: updateAnalytics_def)

lemma computeStats_fields:
  "totalQuestionsL (computeStats h) = foldl (\<lambda>acc s. addD acc (num (totalQuestions s))) (Fin 0) h"
  "totalCorrect (computeStats h) = foldl (\<lambda>acc s. addD acc (num (correctAnswers s))) (Fin 0) h"
  "totalHours (computeStats h) =
     toFixed1 (divD (foldl (\<lambda>acc s. addD acc (num (timeTakenMs s))) (Fin 0) h) (Fin 3600000))"
  "avgAccuracy (computeStats h) =
     Math_round (mulD (divD (foldl (\<lambda>acc s. addD acc (num (correctAnswers s))) (Fin 0) h)
                            (foldl (\<lambda>acc s. addD acc (num (totalQuestions s))) (Fin 0) h))
                      (Fin 100))"
  "firstSessionDate (computeStats h) = timestamp (hd (sort_key timestamp h))"
  by (simp_all add: computeStats_def Let_def)

lemma fl_23_40: "fl (23 / 40) = Fin (5179139571476070 / 2 ^ 53)"
proof -
  have "fl (23 / 40) = Fin (of_int 5179139571476070 * power_int 2 (- 1 - 52))"
    by (rule fl_eqI) (simp_all add: power_int_minus)
  then show ?thesis by (simp add: power_int_minus)
qed

lemma fl_23_40_100: "fl (5179139571476070 / 2 ^ 53 * 100) = Fin (8092405580431359 / 2 ^ 47)"
proof -
  have "fl (5179139571476070 / 2 ^ 53 * 100) =
        Fin (of_int 8092405580431359 * power_int 2 (5 - 52))"
    by (rule fl_eqI) (simp_all add: power_int_minus)
  then show ?thesis by (simp add: power_int_minus)
qed

lemma round_23_40: "\<lfloor>8092405580431359 / 2 ^ 47 + 1 / 2 :: rat\<rfloor> = 57"
  by (rule floor_unique) simp_all

lemma exact_round_23_40: "round (100 * 23 / 40 :: rat) = 58"
proof -
  have "\<lfloor>58 :: rat\<rfloor> = 58" by (rule floor_unique) simp_all
  then show ?thesis by (simp add: round_def)
qed

text \<open>
  Claim C4 says that the accuracy is the rounded value of 100 times the correct count
  over the question count. It fails at a tie: for 23 correct of 40 that value is the
  rounding of 57.5, which is 58, while the code multiplies the double of 23/40 by 100,
  gets a double just below 57.5 and returns 57.
\<close>

theorem accuracy_tie_counterexample:
  "avgAccuracy (fst (updateAnalytics 0 (Some [exEntry3]) emptyStore)) = Fin 57 \<and>
   round (100 * of_int (correctAnswers exEntry3) / of_int (totalQuestions exEntry3) :: rat) = 58"
proof -
  have "avgAccuracy (computeStats [exEntry3]) =
        Math_round (mulD (divD (Fin 23) (Fin 40)) (Fin 100))"
    by (simp add: computeStats_fields(4) exEntry3_def num_def)
  also have "\<dots> = Math_round (mulD (Fin (5179139571476070 / 2 ^ 53)) (Fin 100))"
    by (simp only: divD.simps fl_23_40) simp
  also have "\<dots> = Math_round (Fin (8092405580431359 / 2 ^ 47))"
    by (simp only: mulD.simps fl_23_40_100)
  also have "\<dots> = Fin 57"
    by (simp only: Math_round_def number.case round_23_40) simp
  finally have "avgAccuracy (computeStats [exEntry3]) = Fin 57" .
  then show ?thesis
    using exact_round_23_40 by (simp add: updateAnalytics_Some exEntry3_def)
qed

text \<open>
  The same entry took 7380000 milliseconds: the double of 2.05 hours lies below the tie
  and \<open>toFixed\<close> writes 2.0.
\<close>

lemma fl_41_20: "fl (41 / 20) = Fin (4616189618054758 / 2 ^ 51)"
proof -
  have "fl (41 / 20) = Fin (of_int 4616189618054758 * power_int 2 (1 - 52))"
    by (rule fl_eqI) (simp_all add: power_int_minus)
  then show ?thesis by (simp add: power_int_minus)
qed

lemma floor_41_20: "\<lfloor>4616189618054758 / 2 ^ 51 * 10 + 1 / 2 :: rat\<rfloor> = 20"
  by (rule floor_unique) simp_all

lemma totalHours_tie:
  "totalHours (fst (updateAnalytics 0 (Some [exEntry3]) emptyStore)) = Fin 2"
proof -
  have "totalHours (computeStats [exEntry3]) = toFixed1 (divD (Fin 7380000) (Fin 3600000))"
    by (simp add: computeStats_fields(3) exEntry3_def num_def)
  also have "\<dots> = toFixed1 (Fin (4616189618054758 / 2 ^ 51))"
    using fl_41_20 by simp
  also have "\<dots> = fl (of_int 20 / 10)"
    by (simp only: toFixed1_def number.case floor_41_20) simp
  also have "\<dots> = Fin 2" by simp
  finally show ?thesis by (simp add: updateAnalytics_Some exEntry3_def)
qed

text \<open>
  Claim C4, amended. Recomputing the lifetime statistics of an empty history gives zero
  counts, zero hours, accuracy 0 and the current time as first-session date. Of a history
  that is not empty it gives as first-session date the least timestamp of the entries,
  whatever their order, and, when the counts and durations of the entries are not
  negative and each sum is at most \<open>2 ^ 53\<close>: the sums of the question counts and of
  the correct counts; as hours the double of a number of tenths that is within one
  twentieth (and a millionth for the rounding of the quotient) of the summed milliseconds
  over 3600000; as accuracy the result of \<open>Math.round\<close> on the double product of the
  quotient by 100, an integer within one half (and \<open>10 ^ - 12\<close>) of the exact
  percentage when the question count is positive and not below the correct count, and
  no finite number when the question count is 0.
\<close>

theorem updateAnalytics_stats:
  "fst (updateAnalytics now (Some []) db) =
     \<lparr>totalQuestionsL = Fin 0, totalCorrect = Fin 0, totalHours = Fin 0, avgAccuracy = Fin 0,
      firstSessionDate = now\<rparr> \<and>
   (entries \<noteq> [] \<longrightarrow>
      firstSessionDate (fst (updateAnalytics now (Some entries) db)) =
        Min (timestamp ` set entries)) \<and>
   (entries \<noteq> [] \<and>
    (\<forall>s \<in> set entries. 0 \<le> totalQuestions s \<and> 0 \<le> correctAnswers s \<and> 0 \<le> timeTakenMs s) \<and>
    sum_list (map totalQuestions entries) \<le> 2 ^ 53 \<and>
    sum_list (map correctAnswers entries) \<le> 2 ^ 53 \<and>
    sum_list (map timeTakenMs entries) \<le> 2 ^ 53 \<longrightarrow>
      totalQuestionsL (fst (updateAnalytics now (Some entries) db)) =
        Fin (of_int (sum_list (map totalQuestions entries))) \<and>
      totalCorrect (fst (updateAnalytics now (Some entries) db)) =
        Fin (of_int (sum_list (map correctAnswers entries))) \<and>
      (\<exists>n::int. totalHours (fst (updateAnalytics now (Some entries) db)) = fl (of_int n / 10) \<and>
         \<bar>(of_int n :: rat) / 10 - of_int (sum_list (map timeTakenMs entries)) / 3600000\<bar>
           \<le> 1 / 20 + 1 / 10 ^ 6) \<and>
      (0 < sum_list (map totalQuestions entries) \<and>
       sum_list (map correctAnswers entries) \<le> sum_list (map totalQuestions entries) \<longrightarrow>
         (\<exists>n::int. avgAccuracy (fst (updateAnalytics now (Some entries) db)) = Fin (of_int n) \<and>
            \<bar>(of_int n :: rat) - 100 * of_int (sum_list (map correctAnswers entries)) /
                 of_int (sum_list (map totalQuestions entries))\<bar> \<le> 1 / 2 + 1 / 10 ^ 12)) \<and>
      (sum_list (map totalQuestions entries) = 0 \<longrightarrow>
         (\<forall>x. avgAccuracy (fst (updateAnalytics now (Some entries) db)) \<noteq> Fin x)))"
proof -
  have e: "fst (updateAnalytics now (Some []) db) =
     \<lparr>totalQuestionsL = Fin 0, totalCorrect = Fin 0, totalHours = Fin 0, avgAccuracy = Fin 0,
      firstSessionDate = now\<rparr>"
    by (simp add: updateAnalytics_Some emptyStats_def)
  have d: "entries \<noteq> [] \<longrightarrow>
      firstSessionDate (fst (updateAnalytics now (Some entries) db)) =
        Min (timestamp ` set entries)"
    by (simp add: updateAnalytics_Some computeStats_fields(5) hd_sort_key_Min)
  have m: "entries \<noteq> [] \<and>
    (\<forall>s \<in> set entries. 0 \<le> totalQuestions s \<and> 0 \<le> correctAnswers s \<and> 0 \<le> timeTakenMs s) \<and>
    sum_list (map totalQuestions entries) \<le> 2 ^ 53 \<and>
    sum_list (map correctAnswers entries) \<le> 2 ^ 53 \<and>
    sum_list (map timeTakenMs entries) \<le> 2 ^ 53 \<longrightarrow>
      totalQuestionsL (fst (updateAnalytics now (Some entries) db)) =
        Fin (of_int (sum_list (map totalQuestions entries))) \<and>
      totalCorrect (fst (updateAnalytics now (Some entries) db)) =
        Fin (of_int (sum_list (map correctAnswers entries))) \<and>
      (\<exists>n::int. totalHours (fst (updateAnalytics now (Some entries) db)) = fl (of_int n / 10) \<and>
         \<bar>(of_int n :: rat) / 10 - of_int (sum_list (map timeTakenMs entries)) / 3600000\<bar>
           \<le> 1 / 20 + 1 / 10 ^ 6) \<and>
      (0 < sum_list (map totalQuestions entries) \<and>
       sum_list (map correctAnswers entries) \<le> sum_list (map totalQuestions entries) \<longrightarrow>
         (\<exists>n::int. avgAccuracy (fst (updateAnalytics now (Some entries) db)) = Fin (of_int n) \<and>
            \<bar>(of_int n :: rat) - 100 * of_int (sum_list (map correctAnswers entries)) /
                 of_int (sum_list (map totalQuestions entries))\<bar> \<le> 1 / 2 + 1 / 10 ^ 12)) \<and>
      (sum_list (map totalQuestions entries) = 0 \<longrightarrow>
         (\<forall>x. avgAccuracy (fst (updateAnalytics now (Some entries) db)) \<noteq> Fin x))"
  proof (intro impI, elim conjE)
    assume ne: "entries \<noteq> []"
      and nn: "\<forall>s \<in> set entries. 0 \<le> totalQuestions s \<and> 0 \<le> correctAnswers s \<and> 0 \<le> timeTakenMs s"
      and bq: "sum_list (map totalQuestions entries) \<le> 2 ^ 53"
      and bc: "sum_list (map correctAnswers entries) \<le> 2 ^ 53"
      and bm: "sum_list (map timeTakenMs entries) \<le> 2 ^ 53"
    let ?st = "fst (updateAnalytics now (Some entries) db)"
    let ?q = "sum_list (map totalQuestions entries)"
    let ?c = "sum_list (map correctAnswers entries)"
    let ?m = "sum_list (map timeTakenMs entries)"
    have st: "?st = computeStats entries" using ne by (simp add: updateAnalytics_Some)
    have sq: "foldl (\<lambda>acc s. addD acc (num (totalQuestions s))) (Fin 0) entries = Fin (of_int ?q)"
      using nn bq by (intro foldl_addD_sum) auto
    have sc: "foldl (\<lambda>acc s. addD acc (num (correctAnswers s))) (Fin 0) entries = Fin (of_int ?c)"
      using nn bc by (intro foldl_addD_sum) auto
    have sm: "foldl (\<lambda>acc s. addD acc (num (timeTakenMs s))) (Fin 0) entries = Fin (of_int ?m)"
      using nn bm by (intro foldl_addD_sum) auto
    have c0: "0 \<le> ?c" using nn by (intro sum_list_nonneg) auto
    have m0: "0 \<le> ?m" using nn by (intro sum_list_nonneg) auto
    have 1: "totalQuestionsL ?st = Fin (of_int ?q)"
      by (simp only: st computeStats_fields(1) sq)
    have 2: "totalCorrect ?st = Fin (of_int ?c)"
      by (simp only: st computeStats_fields(2) sc)
    have 3: "\<exists>n::int. totalHours ?st = fl (of_int n / 10) \<and>
         \<bar>(of_int n :: rat) / 10 - of_int ?m / 3600000\<bar> \<le> 1 / 20 + 1 / 10 ^ 6"
      using hours_bound[OF m0 bm] by (simp only: st computeStats_fields(3) sm)
    have 4: "0 < ?q \<and> ?c \<le> ?q \<longrightarrow>
         (\<exists>n::int. avgAccuracy ?st = Fin (of_int n) \<and>
            \<bar>(of_int n :: rat) - 100 * of_int ?c / of_int ?q\<bar> \<le> 1 / 2 + 1 / 10 ^ 12)"
    proof (intro impI, elim conjE)
      assume "0 < ?q" "?c \<le> ?q"
      from accuracy_bound[OF this(1) c0 this(2) bq]
      show "\<exists>n::int. avgAccuracy ?st = Fin (of_int n) \<and>
            \<bar>(of_int n :: rat) - 100 * of_int ?c / of_int ?q\<bar> \<le> 1 / 2 + 1 / 10 ^ 12"
        by (simp only: st computeStats_fields(4) sq sc)
    qed
    have 5: "?q = 0 \<longrightarrow> (\<forall>x. avgAccuracy ?st \<noteq> Fin x)"
    proof (intro impI allI)
      fix x
      assume z: "?q = 0"
      have a: "Math_round (mulD (divD (Fin (of_int ?c)) (Fin 0)) (Fin 100)) \<noteq> Fin x"
        using c0 by (rule accuracy_zero_total)
      have "avgAccuracy ?st = Math_round (mulD (divD (Fin (of_int ?c)) (Fin 0)) (Fin 100))"
        by (simp only: st computeStats_fields(4) sq sc z of_int_0)
      with a show "avgAccuracy ?st \<noteq> Fin x" by simp
    qed
    from 1 2 3 4 5
    show "totalQuestionsL ?st = Fin (of_int ?q) \<and>
      totalCorrect ?st = Fin (of_int ?c) \<and>
      (\<exists>n::int. totalHours ?st = fl (of_int n / 10) \<and>
         \<bar>(of_int n :: rat) / 10 - of_int ?m / 3600000\<bar> \<le> 1 / 20 + 1 / 10 ^ 6) \<and>
      (0 < ?q \<and> ?c \<le> ?q \<longrightarrow>
         (\<exists>n::int. avgAccuracy ?st = Fin (of_int n) \<and>
            \<bar>(of_int n :: rat) - 100 * of_int ?c / of_int ?q\<bar> \<le> 1 / 2 + 1 / 10 ^ 12)) \<and>
      (?q = 0 \<longrightarrow> (\<forall>x. avgAccuracy ?st \<noteq> Fin x))"
      by blast
  qed
  from e d m show ?thesis by blast
qed

theorem updateAnalytics_stats_witness:
  "totalQuestionsL (fst (updateAnalytics 99 (Some [exEntry1, exEntry2]) emptyStore)) = Fin 8 \<and>
   totalCorrect (fst (updateAnalytics 99 (Some [exEntry1, exEntry2]) emptyStore)) = Fin 4 \<and>
   firstSessionDate (fst (updateAnalytics 99 (Some [exEntry1, exEntry2]) emptyStore)) = 20 \<and>
   (\<exists>n::int. avgAccuracy (fst (updateAnalytics 99 (Some [exEntry1, exEntry2]) emptyStore)) =
        Fin (of_int n) \<and> \<bar>(of_int n :: rat) - 50\<bar> \<le> 1 / 2 + 1 / 10 ^ 12)"
  using updateAnalytics_stats [of 99 emptyStore "[exEntry1, exEntry2]"]
  by (simp add: exEntry1_def exEntry2_def)

text \<open>
  Claim C5. An import whose payload lacks the history array, the bookmarks array or the
  question library returns false after one alert that names the first missing field, and
  leaves the store as it was. An import whose payload has all three returns true and
  leaves a store in which every slot is overwritten from the payload and the lifetime
  statistics are those recomputed from the imported history.
\<close>

theorem fullImport_validation:
  "(historyP p = None \<longrightarrow>
      fullImport now (Object p) db =
        (False, [''Import Failed: Missing 'history' array in backup''], db)) \<and>
   (historyP p \<noteq> None \<and> bookmarksP p = None \<longrightarrow>
      fullImport now (Object p) db =
        (False, [''Import Failed: Missing 'bookmarks' array in backup''], db)) \<and>
   (historyP p \<noteq> None \<and> bookmarksP p \<noteq> None \<and> questionLibraryP p = None \<longrightarrow>
      fullImport now (Object p) db =
        (False, [''Import Failed: Missing 'questionLibrary' in backup''], db)) \<and>
   (\<forall>h b q. historyP p = Some h \<and> bookmarksP p = Some b \<and> questionLibraryP p = Some q \<longrightarrow>
      fullImport now (Object p) db =
        (True, [],
         \<lparr>historyS = Some h, bookmarksS = Some b,
          masteryCardsS = Some (case masteryCardsP p of None \<Rightarrow> Map.empty | Some m \<Rightarrow> m),
          srsStatesS = Some (case srsStatesP p of None \<Rightarrow> Map.empty | Some m \<Rightarrow> m),
          questionLibraryS = Some q, studyPlanS = studyPlanP p,
          lifetimeStatsS = Some (if h = [] then emptyStats now else computeStats h)\<rparr>))"
  by (auto simp add: fullImport_def importBody_def updateAnalytics_Some)

theorem fullImport_validation_witness:
  "fullImport 7 (Object exPayload) exStore =
     (False, [''Import Failed: Missing 'bookmarks' array in backup''], exStore) \<and>
   fst (fullImport 7 (Object (exPayload\<lparr>bookmarksP := Some []\<rparr>)) exStore)"
  using fullImport_validation [of "exPayload" 7 exStore]
    fullImport_validation [of "exPayload\<lparr>bookmarksP := Some []\<rparr>" 7 exStore]
  by (simp add: exPayload_def)

section \<open>Export and import as a round trip\<close>

lemma getAllData_Some:
  "lifetimeStatsS db = Some ls \<Longrightarrow>
   getAllData now db =
     (\<lparr>historyD = loadHistory db,
       bookmarksD = (case bookmarksS db of None \<Rightarrow> [] | Some b \<Rightarrow> b),
       masteryCardsD = (case masteryCardsS db of None \<Rightarrow> Map.empty | Some m \<Rightarrow> m),
       srsStatesD = (case srsStatesS db of None \<Rightarrow> Map.empty | Some m \<Rightarrow> m),
       questionLibraryD = (case questionLibraryS db of None \<Rightarrow> Map.empty | Some m \<Rightarrow> m),
       studyPlanD = studyPlanS db,
       lifetimeStatsD = ls\<rparr>, db)"
  by (simp add: getAllData_def loadHistory_def)

lemma getAllData_None:
  "lifetimeStatsS db = None \<Longrightarrow>
   getAllData now db =
     (\<lparr>historyD = loadHistory db,
       bookmarksD = (case bookmarksS db of None \<Rightarrow> [] | Some b \<Rightarrow> b),
       masteryCardsD = (case masteryCardsS db of None \<Rightarrow> Map.empty | Some m \<Rightarrow> m),
       srsStatesD = (case srsStatesS db of None \<Rightarrow> Map.empty | Some m \<Rightarrow> m),
       questionLibraryD = (case questionLibraryS db of None \<Rightarrow> Map.empty | Some m \<Rightarrow> m),
       studyPlanD = studyPlanS db,
       lifetimeStatsD = statsOf now db\<rparr>,
      db\<lparr>lifetimeStatsS := Some (statsOf now db)\<rparr>)"
  by (simp add: getAllData_def loadHistory_def statsOf_def updateAnalytics_Some Let_def)


lemma firstExport_eq:
  "firstExport t1 db =
     \<lparr>historyP = Some (loadHistory db),
      bookmarksP = Some (case bookmarksS db of None \<Rightarrow> [] | Some b \<Rightarrow> b),
      masteryCardsP = Some (case masteryCardsS db of None \<Rightarrow> Map.empty | Some m \<Rightarrow> m),
      srsStatesP = Some (case srsStatesS db of None \<Rightarrow> Map.empty | Some m \<Rightarrow> m),
      questionLibraryP = Some (case questionLibraryS db of None \<Rightarrow> Map.empty | Some m \<Rightarrow> m),
      studyPlanP = studyPlanS db,
      lifetimeStatsP = Some (statsOf t1 db)\<rparr>"
proof (cases "lifetimeStatsS db")
  case None
  then show ?thesis
    by (simp add: firstExport_def backupAllData_def stringify_def getAllData_None)
next
  case (Some ls)
  then show ?thesis
    by (simp add: firstExport_def backupAllData_def stringify_def getAllData_Some statsOf_def)
qed

lemma backup_store:
  "snd (backupAllData t1 db) = db\<lparr>lifetimeStatsS := Some (statsOf t1 db)\<rparr>"
proof (cases "lifetimeStatsS db")
  case None
  then show ?thesis
    by (simp add: backupAllData_def getAllData_None)
next
  case (Some ls)
  then show ?thesis
    by (simp add: backupAllData_def getAllData_Some statsOf_def)
qed

lemma reimport_eq:
  "reimport t1 t2 db =
     (True, [],
      \<lparr>historyS = Some (loadHistory db),
       bookmarksS = Some (case bookmarksS db of None \<Rightarrow> [] | Some b \<Rightarrow> b),
       masteryCardsS = Some (case masteryCardsS db of None \<Rightarrow> Map.empty | Some m \<Rightarrow> m),
       srsStatesS = Some (case srsStatesS db of None \<Rightarrow> Map.empty | Some m \<Rightarrow> m),
       questionLibraryS = Some (case questionLibraryS db of None \<Rightarrow> Map.empty | Some m \<Rightarrow> m),
       studyPlanS = studyPlanS db,
       lifetimeStatsS = Some (if loadHistory db = [] then emptyStats t2
                              else computeStats (loadHistory db))\<rparr>)"
  unfolding reimport_def firstExport_eq
  by (simp add: fullImport_def importBody_def updateAnalytics_Some)

lemma secondExport_eq:
  "secondExport t1 t2 t3 db =
     \<lparr>historyP = Some (loadHistory db),
      bookmarksP = Some (case bookmarksS db of None \<Rightarrow> [] | Some b \<Rightarrow> b),
      masteryCardsP = Some (case masteryCardsS db of None \<Rightarrow> Map.empty | Some m \<Rightarrow> m),
      srsStatesP = Some (case srsStatesS db of None \<Rightarrow> Map.empty | Some m \<Rightarrow> m),
      questionLibraryP = Some (case questionLibraryS db of None \<Rightarrow> Map.empty | Some m \<Rightarrow> m),
      studyPlanP = studyPlanS db,
      lifetimeStatsP = Some (if loadHistory db = [] then emptyStats t2
                             else computeStats (loadHistory db))\<rparr>"
  unfolding secondExport_def reimport_eq
  by (simp add: backupAllData_def stringify_def getAllData_Some loadHistory_def)


text \<open>
  Claim C6 says that exporting, importing the export and exporting again gives the first
  payload again, lifetime statistics included. It fails on a store without history: the
  import recomputes the statistics of an empty history with the clock of the import as
  first-session date, so a backup taken at time 1 and imported at time 2 is exported with
  another date.
\<close>

theorem roundtrip_counterexample:
  "fst (reimport 1 2 emptyStore) \<and>
   lifetimeStatsP (firstExport 1 emptyStore) = Some (emptyStats 1) \<and>
   lifetimeStatsP (secondExport 1 2 3 emptyStore) = Some (emptyStats 2) \<and>
   secondExport 1 2 3 emptyStore \<noteq> firstExport 1 emptyStore"
  by (simp add: firstExport_eq secondExport_eq reimport_eq statsOf_def loadHistory_def
      emptyStore_def emptyStats_def)

text \<open>
  Claim C6, amended. Importing an exported payload succeeds, and the next export agrees
  with the first one on history, bookmarks, mastery cards, SRS states, question library
  and study plan. Its lifetime statistics are those recomputed from the history at import
  time; the whole payload is the same whenever the history is not empty and the stored
  statistics were absent or were the ones computed from that history.
\<close>

theorem roundtrip_collections:
  "fst (reimport t1 t2 db) \<and>
   historyP (secondExport t1 t2 t3 db) = historyP (firstExport t1 db) \<and>
   bookmarksP (secondExport t1 t2 t3 db) = bookmarksP (firstExport t1 db) \<and>
   masteryCardsP (secondExport t1 t2 t3 db) = masteryCardsP (firstExport t1 db) \<and>
   srsStatesP (secondExport t1 t2 t3 db) = srsStatesP (firstExport t1 db) \<and>
   questionLibraryP (secondExport t1 t2 t3 db) = questionLibraryP (firstExport t1 db) \<and>
   studyPlanP (secondExport t1 t2 t3 db) = studyPlanP (firstExport t1 db) \<and>
   lifetimeStatsP (secondExport t1 t2 t3 db) =
     Some (if loadHistory db = [] then emptyStats t2 else computeStats (loadHistory db)) \<and>
   (loadHistory db \<noteq> [] \<and>
    (lifetimeStatsS db = None \<or> lifetimeStatsS db = Some (computeStats (loadHistory db))) \<longrightarrow>
      secondExport t1 t2 t3 db = firstExport t1 db)"
  by (auto simp add: firstExport_eq secondExport_eq reimport_eq statsOf_def)

theorem roundtrip_collections_witness:
  "loadHistory exStore \<noteq> [] \<and> lifetimeStatsS exStore = None \<and>
   secondExport 1 2 3 exStore = firstExport 1 exStore"
  using roundtrip_collections [of 1 2 exStore 3]
  by (simp add: exStore_def emptyStore_def loadHistory_def)

section \<open>Properties of the session controller\<close>

lemma addToLibrary_lookup:
  "addToLibrary qs prev k =
     (case prev k of
        Some q0 \<Rightarrow> Some q0
      | None \<Rightarrow> if k \<in> set objectPrototypeKeys then None else find (\<lambda>q. idQ q = k) qs)"
proof (induction qs arbitrary: prev)
  case Nil
  then show ?case by (simp split: option.splits)
next
  case (Cons q qs)
  show ?case
    by (auto simp add: Cons.IH truthyAt_def split: option.splits)
qed

text \<open>
  Claim C8 says that every identifier not yet present is inserted. The code tests the
  truthiness of \<open>next[q.id]\<close>, which is true of an identifier that names an inherited
  member: a question whose identifier is \<open>constructor\<close> is not inserted into an empty
  library, into which the identifier \<open>b\<close> is.
\<close>

theorem addToLibrary_inherited_key:
  "addToLibrary [exQuestion ''constructor'' ''one'' 2, exQuestion ''b'' ''two'' 3] Map.empty
     ''constructor'' = None \<and>
   addToLibrary [exQuestion ''constructor'' ''one'' 2, exQuestion ''b'' ''two'' 3] Map.empty
     ''b'' = Some (exQuestion ''b'' ''two'' 3)"
  by (simp add: truthyAt_def objectPrototypeKeys_def exQuestion_def)

lemma handleNext_guard:
  "selectedAnswer st = None \<Longrightarrow>
   handleNext userFocus manualReinforce uuid now now' st = Inr (st, None)"
  by (simp add: handleNext_def split: option.splits)

lemma startQuiz_selectedAnswer:
  "selectedAnswer (startQuiz aistudio generated now args st) = selectedAnswer st"
  by (simp add: startQuiz_def handleError_def Let_def split: sum.splits option.splits)

lemma exCompleted_fields:
  "session exCompleted = None \<and> selectedAnswer exCompleted = Some 3"
proof -
  have "\<exists>st. handleNext None False ''u'' 100 101 exLast = Inr (st, None) \<and>
      session st = None \<and> selectedAnswer st = Some 3"
    by (simp add: handleNext_def exLast_def exIdle_def exSessionA_def exQuestion_def
        setAnswer_def answerAt_def Let_def processSessionCompletion_def
        split: option.splits)
  then show ?thesis by (auto simp add: exCompleted_def)
qed

lemma exNewQuiz_session:
  "session exNewQuiz =
     Some \<lparr>questions = [exQuestion ''b1'' ''other'' 2, exQuestion ''b2'' ''more'' 0],
           currentQuestionIndex = 0, userAnswers = [], startTime = 200,
           specialties = [PEDIATRICS], examTypes = [STEP_2_CK], complexity = EASY,
           topics = Some [], skippedIds = Some [], autoReinforce = False\<rparr>"
  by (simp add: exNewQuiz_def startQuiz_def tryGenerate_def exArgs_def Let_def)

text \<open>
  Claim C9 says that advancing is a no-op while no answer is recorded at the current
  position. The guard of \<open>handleNext\<close> reads \<open>selectedAnswer\<close>, which completion,
  discard and \<open>startQuiz\<close> leave as it was: after a quiz whose last answer was 3, a new
  quiz opens at position 0 with an empty answer array and that answer still selected,
  and advancing moves to position 1 and records 3 at position 0.
\<close>

theorem handleNext_stale_answer:
  "session exCompleted = None \<and>
   map_option currentQuestionIndex (session exNewQuiz) = Some 0 \<and>
   map_option userAnswers (session exNewQuiz) = Some [] \<and>
   selectedAnswer exNewQuiz = Some 3 \<and>
   handleNext None False ''v'' 300 301 exNewQuiz \<noteq> Inr (exNewQuiz, None) \<and>
   map_option currentQuestionIndex (session exStaleAdvance) = Some 1 \<and>
   map_option userAnswers (session exStaleAdvance) = Some [Some 3]"
proof -
  have sel: "selectedAnswer exNewQuiz = Some 3"
    by (simp add: exNewQuiz_def startQuiz_selectedAnswer exCompleted_fields)
  have adv: "\<exists>st. handleNext None False ''v'' 300 301 exNewQuiz = Inr (st, None) \<and>
      session st =
        Some \<lparr>questions = [exQuestion ''b1'' ''other'' 2, exQuestion ''b2'' ''more'' 0],
              currentQuestionIndex = 1, userAnswers = [Some 3], startTime = 200,
              specialties = [PEDIATRICS], examTypes = [STEP_2_CK], complexity = EASY,
              topics = Some [], skippedIds = Some [], autoReinforce = False\<rparr>"
    by (simp add: handleNext_def sel exNewQuiz_session exQuestion_def setAnswer_def
        answerAt_def Let_def)
  then obtain st where st: "handleNext None False ''v'' 300 301 exNewQuiz = Inr (st, None)"
    and sess: "session st =
        Some \<lparr>questions = [exQuestion ''b1'' ''other'' 2, exQuestion ''b2'' ''more'' 0],
              currentQuestionIndex = 1, userAnswers = [Some 3], startTime = 200,
              specialties = [PEDIATRICS], examTypes = [STEP_2_CK], complexity = EASY,
              topics = Some [], skippedIds = Some [], autoReinforce = False\<rparr>"
    by blast
  have ne: "st \<noteq> exNewQuiz"
    using sess exNewQuiz_session by auto
  have stale: "exStaleAdvance = st"
    by (simp add: exStaleAdvance_def st)
  show ?thesis
    using exCompleted_fields sel ne
    by (simp add: exNewQuiz_session stale sess st)
qed

lemma handleError_frame:
  "handleError a l e st =
     st\<lparr>hasKey := hasKey (handleError a l e st), alerts := alerts (handleError a l e st)\<rparr>"
  by (simp add: handleError_def Let_def split: option.splits)

lemma tryGenerate_fails:
  "(\<exists>e. generated = Inl e) \<or> generated = Inr [] \<Longrightarrow> \<exists>err. tryGenerate generated = Inl err"
  by (auto simp add: tryGenerate_def)

lemma startQuiz_failure_frame:
  assumes "tryGenerate generated = Inl err"
  shows "startQuiz aistudio generated now args st =
     st\<lparr>hasKey := hasKey (startQuiz aistudio generated now args st),
        isLoading := isLoading (startQuiz aistudio generated now args st),
        alerts := alerts (startQuiz aistudio generated now args st)\<rparr>"
proof -
  define st1 where "st1 = (if (case aistudio of None \<Rightarrow> hasKey st | Some a \<Rightarrow> hasSelectedApiKey a)
      then st else st\<lparr>hasKey := True\<rparr>)\<lparr>isLoading := True\<rparr>"
  define st2 where "st2 = handleError (map_option openSelectKeyOnError aistudio) (isLoading st) err st1"
  have s2: "st2 = st1\<lparr>hasKey := hasKey st2, alerts := alerts st2\<rparr>"
    unfolding st2_def by (rule handleError_frame)
  have s1: "st1 = st\<lparr>hasKey := hasKey st1, isLoading := True\<rparr>"
    by (simp add: st1_def)
  have s3: "st2 = st\<lparr>hasKey := hasKey st2, isLoading := True, alerts := alerts st2\<rparr>"
    by (subst s2, subst s1) simp
  have "startQuiz aistudio generated now args st = st \<or>
        startQuiz aistudio generated now args st = st2\<lparr>isLoading := False\<rparr>"
    by (simp add: startQuiz_def Let_def assms st2_def st1_def)
  then show ?thesis
  proof
    assume "startQuiz aistudio generated now args st = st"
    then show ?thesis by simp
  next
    assume a: "startQuiz aistudio generated now args st = st2\<lparr>isLoading := False\<rparr>"
    show ?thesis unfolding a by (subst s3) simp
  qed
qed

text \<open>
  Claim C7. When the generator rejects or resolves to no question, the \<open>try\<close> block of
  \<open>startQuiz\<close> raises an error, no session is created, and the active session, the
  question library, the history and the lifetime statistics are what they were: the
  state differs from the one before at most in the key flag, the loading flag and the
  alerts shown.
\<close>

theorem startQuiz_failure:
  assumes "(\<exists>e. generated = Inl e) \<or> generated = Inr []"
  shows "(\<exists>err. tryGenerate generated = Inl err) \<and>
    session (startQuiz aistudio generated now args st) = session st \<and>
    questionLibrary (startQuiz aistudio generated now args st) = questionLibrary st \<and>
    history (startQuiz aistudio generated now args st) = history st \<and>
    lifetimeStats (startQuiz aistudio generated now args st) = lifetimeStats st \<and>
    startQuiz aistudio generated now args st =
      st\<lparr>hasKey := hasKey (startQuiz aistudio generated now args st),
         isLoading := isLoading (startQuiz aistudio generated now args st),
         alerts := alerts (startQuiz aistudio generated now args st)\<rparr>"
proof -
  from tryGenerate_fails[OF assms] obtain err where e: "tryGenerate generated = Inl err" ..
  note f = startQuiz_failure_frame[OF e, of aistudio now args st]
  have "session (startQuiz aistudio generated now args st) = session st"
    by (subst f) simp
  moreover have "questionLibrary (startQuiz aistudio generated now args st) = questionLibrary st"
    by (subst f) simp
  moreover have "history (startQuiz aistudio generated now args st) = history st"
    by (subst f) simp
  moreover have "lifetimeStats (startQuiz aistudio generated now args st) = lifetimeStats st"
    by (subst f) simp
  ultimately show ?thesis using e f by blast
qed

theorem startQuiz_failure_witness:
  "startQuiz None (Inr []) 200 exArgs exAdvanced = exAdvanced\<lparr>isLoading := False\<rparr> \<and>
   session (startQuiz None (Inl \<lparr>statusE = Some 429, messageE = ''quota''\<rparr>) 200 exArgs exAdvanced)
     = session exAdvanced"
proof -
  have "startQuiz None (Inr []) 200 exArgs exAdvanced = exAdvanced\<lparr>isLoading := False\<rparr>"
    using startQuiz_failure [of "Inr []" None 200 exArgs exAdvanced]
    by (simp add: startQuiz_def tryGenerate_def handleError_def exAdvanced_def exMissed_def
        exIdle_def)
  moreover have "session (startQuiz None (Inl \<lparr>statusE = Some 429, messageE = ''quota''\<rparr>) 200
      exArgs exAdvanced) = session exAdvanced"
    using startQuiz_failure [of "Inl \<lparr>statusE = Some 429, messageE = ''quota''\<rparr>" None 200
        exArgs exAdvanced]
    by simp
  ultimately show ?thesis by blast
qed

text \<open>
  Claim C1 says that a remediation response is never appended to a session other than the
  one whose missed question triggered it. It fails: the first question of a session is
  missed and a request is sent; the session is discarded and a new quiz is started; the
  response that arrives then is appended to the new session.
\<close>

theorem remediation_leak_counterexample:
  "handleNext None False ''u'' 100 100 exMissed = Inr (exAdvanced, Some exRequest) \<and>
   session (discardSession exAdvanced) = None \<and>
   map_option questions (session (startQuiz None (Inr [exQuestion ''b1'' ''other'' 2]) 200 exArgs
     (discardSession exAdvanced))) = Some [exQuestion ''b1'' ''other'' 2] \<and>
   map_option questions (session (remediationResolved [exQuestion ''r1'' ''again'' 4]
     (startQuiz None (Inr [exQuestion ''b1'' ''other'' 2]) 200 exArgs
       (discardSession exAdvanced)))) =
     Some [exQuestion ''b1'' ''other'' 2, exQuestion ''r1'' ''again'' 4]"
proof -
  have 1: "handleNext None False ''u'' 100 100 exMissed = Inr (exAdvanced, Some exRequest)"
    by (simp add: handleNext_def exMissed_def exIdle_def exSessionA_def exAdvanced_def
        exRequest_def exQuestion_def setAnswer_def answerAt_def Let_def)
  have 2: "session (discardSession exAdvanced) = None"
    by (simp add: discardSession_def)
  have 3: "session (startQuiz None (Inr [exQuestion ''b1'' ''other'' 2]) 200 exArgs
     (discardSession exAdvanced)) =
     Some \<lparr>questions = [exQuestion ''b1'' ''other'' 2], currentQuestionIndex = 0,
           userAnswers = [], startTime = 200,
           specialties = [PEDIATRICS], examTypes = [STEP_2_CK], complexity = EASY,
           topics = Some [], skippedIds = Some [], autoReinforce = False\<rparr>"
    by (simp add: startQuiz_def tryGenerate_def discardSession_def exAdvanced_def exMissed_def
        exIdle_def exArgs_def Let_def)
  have 4: "map_option questions (session (remediationResolved [exQuestion ''r1'' ''again'' 4]
     (startQuiz None (Inr [exQuestion ''b1'' ''other'' 2]) 200 exArgs
       (discardSession exAdvanced)))) =
     Some [exQuestion ''b1'' ''other'' 2, exQuestion ''r1'' ''again'' 4]"
    by (simp add: remediationResolved_def 3 Let_def)
  from 1 2 3 4 show ?thesis by simp
qed

text \<open>
  Claim C1, amended. A remediation response that arrives while no session is active
  leaves the session absent; one that arrives while a session is active appends its
  questions to that session, whichever it is (the guard is the presence of a session).
  In both cases the questions are merged into the question library, and nothing else
  changes but the background flag; a rejected request changes only that flag.
\<close>

theorem remediation_presence_guard:
  "(session st = None \<longrightarrow> session (remediationResolved remediation st) = None) \<and>
   (\<forall>s. session st = Some s \<longrightarrow>
      session (remediationResolved remediation st) =
        Some (s\<lparr>questions := questions s @ remediation\<rparr>)) \<and>
   questionLibrary (remediationResolved remediation st) =
     addToLibrary remediation (questionLibrary st) \<and>
   remediationResolved remediation st =
     st\<lparr>questionLibrary := questionLibrary (remediationResolved remediation st),
        session := session (remediationResolved remediation st),
        backgroundProcessing := False\<rparr> \<and>
   remediationRejected st = st\<lparr>backgroundProcessing := False\<rparr>"
  by (cases remediation) (simp_all add: remediationResolved_def remediationRejected_def Let_def)

theorem remediation_presence_guard_witness:
  "session (discardSession exAdvanced) = None \<and>
   session (remediationResolved [exQuestion ''r1'' ''again'' 4] (discardSession exAdvanced)) = None \<and>
   map_option questions (session (remediationResolved [exQuestion ''r1'' ''again'' 4] exAdvanced)) =
     Some [exQuestion ''a1'' ''first'' 0, exQuestion ''a2'' ''second'' 3,
           exQuestion ''r1'' ''again'' 4]"
  using remediation_presence_guard [of "discardSession exAdvanced" "[exQuestion ''r1'' ''again'' 4]"]
    remediation_presence_guard [of exAdvanced "[exQuestion ''r1'' ''again'' 4]"]
  by (simp add: discardSession_def exAdvanced_def exMissed_def exIdle_def exSessionA_def)

end
